theory Spec2Isabelle
  imports Complex_Main "HOL-Library.Word"
begin

section \<open>Data model\<close>

text \<open>
  The converter is the Python program of \<^verbatim>\<open>downsampler.py\<close>, \<^verbatim>\<open>reader.py\<close> and
  \<^verbatim>\<open>exporter.py\<close>. A point set is a pair of index-aligned arrays: \<^verbatim>\<open>points\<close> (N rows
  of three floats) and \<^verbatim>\<open>colors\<close> (N rows of three \<^verbatim>\<open>uint8\<close> channels).

  Coordinates are real numbers, standing for the finite values of a float array. The
  \<^verbatim>\<open>np.int64\<close> grid indices and voxel keys are 64-bit words, whose arithmetic wraps as
  NumPy's does; their order is the signed one (\<^const>\<open>sint\<close>).
\<close>

type_synonym point = "real \<times> real \<times> real"
type_synonym color = "8 word \<times> 8 word \<times> 8 word"
type_synonym int64 = "64 word"
type_synonym cell = "int64 \<times> int64 \<times> int64"

text \<open>
  The exceptions the modelled functions can leave with. \<open>ValueError_no_target\<close> is the
  \<^verbatim>\<open>ValueError\<close> that \<^verbatim>\<open>downsample_to_target\<close> raises itself;
  \<open>ValueError_zero_size\<close> is the \<^verbatim>\<open>ValueError\<close> of a NumPy \<^verbatim>\<open>min\<close>/\<^verbatim>\<open>max\<close> reduction over
  an empty array.
\<close>

datatype error =
    ValueError_no_target
  | ValueError_zero_size
  | ZeroDivisionError
  | TypeError
  | IndexError
  | UnboundLocalError
  | OverflowError
  | CalledProcessError int
  | FileNotFoundError

subsection \<open>Floating-point rounding\<close>

text \<open>
  A binary floating-point format with a significand of \<open>p\<close> bits rounds a real result
  to the nearest multiple of the unit in the last place of its binade, a tie going to the
  even multiple (the IEEE 754 default). \<^verbatim>\<open>float32\<close> has 24 bits and \<^verbatim>\<open>float64\<close>, the
  Python \<^verbatim>\<open>float\<close>, has 53. The exponent range is taken as unbounded: overflow to an
  infinity and the subnormal numbers are not modelled.
\<close>

definition round_half_even :: "real \<Rightarrow> int" where
  "round_half_even q =
     (let n = \<lfloor>q\<rfloor>; r = q - real_of_int n
      in if r < 1 / 2 then n else if 1 / 2 < r then n + 1 else if even n then n else n + 1)"

definition pow2 :: "int \<Rightarrow> real" where
  "pow2 e = (if 0 \<le> e then 2 ^ nat e else 1 / 2 ^ nat (- e))"

definition round_to :: "nat \<Rightarrow> real \<Rightarrow> real" where
  "round_to p x =
     (if x = 0 then 0
      else let ulp = pow2 (\<lfloor>log 2 \<bar>x\<bar>\<rfloor> - int p + 1)
           in ulp * real_of_int (round_half_even (x / ulp)))"

definition float32 :: "real \<Rightarrow> real" where
  "float32 = round_to 24"

definition float64 :: "real \<Rightarrow> real" where
  "float64 = round_to 53"

subsection \<open>What the NumPy build and the arrays decide\<close>

text \<open>
  Three things the source leaves to the NumPy build it runs on and to the arrays it is
  given, taken as parameters:
  \<^item> \<open>argsort\<close> is \<^verbatim>\<open>np.argsort\<close> with its default \<^verbatim>\<open>kind\<close> (\<^verbatim>\<open>quicksort\<close>), which sorts but
    is not documented to be stable: the order it leaves equal keys in is not fixed;
  \<^item> \<open>cast_undefined x v\<close> is the \<^verbatim>\<open>int64\<close> that \<^verbatim>\<open>astype(np.int64)\<close> leaves for the
    floored quotient \<^verbatim>\<open>x / v\<close> when that is NaN, infinite (\<open>v = 0\<close>) or outside the
    \<^verbatim>\<open>int64\<close> range; the conversion is then defined by the platform only;
  \<^item> \<open>float_dtype\<close> is the rounding of a real number to the dtype of the float array an
    operation works on: \<^const>\<open>float32\<close> for the arrays the readers return
    (\<^verbatim>\<open>astype(np.float32)\<close>) and for a \<^verbatim>\<open>float\<close> property of a PLY file, \<^const>\<open>float64\<close>
    for a \<^verbatim>\<open>double\<close> property.
\<close>

record numpy =
  argsort :: "int64 list \<Rightarrow> nat list"
  cast_undefined :: "real \<Rightarrow> real \<Rightarrow> int64"
  float_dtype :: "real \<Rightarrow> real"

text \<open>What \<^verbatim>\<open>np.argsort\<close> promises: a permutation of the indices that sorts the keys.\<close>

definition argsort_ok :: "'a numpy_scheme \<Rightarrow> bool" where
  "argsort_ok np \<longleftrightarrow>
     (\<forall>ks. distinct (argsort np ks) \<and> set (argsort np ks) = {..<length ks} \<and>
           sorted (map (\<lambda>i. sint (ks ! i)) (argsort np ks)))"

text \<open>
  A stable sort, which is what \<^verbatim>\<open>np.argsort\<close> is on the short arrays of the examples
  below (it sorts fewer than 16 elements by insertion); the value an x86-64 conversion
  instruction leaves; and the NumPy these make with \<^verbatim>\<open>float32\<close> arrays.
\<close>

definition argsort_stable :: "int64 list \<Rightarrow> nat list" where
  "argsort_stable ks = sort_key (\<lambda>i. sint (ks ! i)) [0..<length ks]"

definition cast_x86 :: "real \<Rightarrow> real \<Rightarrow> int64" where
  "cast_x86 x v = word_of_int (- (2 ^ 63))"

definition numpy_stable :: numpy where
  "numpy_stable =
     \<lparr>argsort = argsort_stable, cast_undefined = cast_x86, float_dtype = float32\<rparr>"

text \<open>
  The arithmetic of NumPy on float operands: each operand is in, or is converted to, the
  dtype of the array, and the result is the exact result rounded to it.
\<close>

definition np_add :: "'a numpy_scheme \<Rightarrow> real \<Rightarrow> real \<Rightarrow> real" where
  "np_add np a b = float_dtype np (float_dtype np a + float_dtype np b)"

definition np_subtract :: "'a numpy_scheme \<Rightarrow> real \<Rightarrow> real \<Rightarrow> real" where
  "np_subtract np a b = float_dtype np (float_dtype np a - float_dtype np b)"

definition np_multiply :: "'a numpy_scheme \<Rightarrow> real \<Rightarrow> real \<Rightarrow> real" where
  "np_multiply np a b = float_dtype np (float_dtype np a * float_dtype np b)"

definition np_true_divide :: "'a numpy_scheme \<Rightarrow> real \<Rightarrow> real \<Rightarrow> real" where
  "np_true_divide np a b = float_dtype np (float_dtype np a / float_dtype np b)"

definition np_sqrt :: "'a numpy_scheme \<Rightarrow> real \<Rightarrow> real" where
  "np_sqrt np a = float_dtype np (sqrt (float_dtype np a))"

text \<open>\<^verbatim>\<open>np.add.reduce\<close> over a short run: from the identity 0, element by element.\<close>

definition add_reduce :: "'a numpy_scheme \<Rightarrow> real list \<Rightarrow> real" where
  "add_reduce np xs = foldl (np_add np) 0 xs"

section \<open>downsampler.py\<close>

subsection \<open>NumPy primitives\<close>

text \<open>
  \<^verbatim>\<open>np.floor(x / v).astype(np.int64)\<close> for one coordinate. The quotient is taken as the
  exact one: which dtype \<^verbatim>\<open>points / voxel_size\<close> is divided in depends on the type of the
  \<^verbatim>\<open>voxel_size\<close> scalar and on the promotion rules of the NumPy version.
\<close>

definition floor_div_int64 :: "'a numpy_scheme \<Rightarrow> real \<Rightarrow> real \<Rightarrow> int64" where
  "floor_div_int64 np x v =
     (if v \<noteq> 0 \<and> - (2 ^ 63) \<le> \<lfloor>x / v\<rfloor> \<and> \<lfloor>x / v\<rfloor> < 2 ^ 63
      then word_of_int \<lfloor>x / v\<rfloor>
      else cast_undefined np x v)"

definition grid_index :: "'a numpy_scheme \<Rightarrow> real \<Rightarrow> point \<Rightarrow> cell" where
  "grid_index np v p =
     (case p of (x, y, z) \<Rightarrow>
        (floor_div_int64 np x v, floor_div_int64 np y v, floor_div_int64 np z v))"

text \<open>Signed minimum and maximum of a non-empty \<^verbatim>\<open>int64\<close> column.\<close>

definition min64 :: "int64 list \<Rightarrow> int64" where
  "min64 xs = fold (\<lambda>a b. if sint a < sint b then a else b) (tl xs) (hd xs)"

definition max64 :: "int64 list \<Rightarrow> int64" where
  "max64 xs = fold (\<lambda>a b. if sint b < sint a then a else b) (tl xs) (hd xs)"

definition cells_min :: "cell list \<Rightarrow> cell" where
  "cells_min cs = (min64 (map fst cs), min64 (map (fst \<circ> snd) cs), min64 (map (snd \<circ> snd) cs))"

definition cells_max :: "cell list \<Rightarrow> cell" where
  "cells_max cs = (max64 (map fst cs), max64 (map (fst \<circ> snd) cs), max64 (map (snd \<circ> snd) cs))"

definition cell_sub :: "cell \<Rightarrow> cell \<Rightarrow> cell" where
  "cell_sub c off = (case (c, off) of ((a, b, d), (x, y, z)) \<Rightarrow> (a - x, b - y, d - z))"

text \<open>The index of the first occurrence of a value in a list (its length when absent).\<close>

definition first_index :: "'a list \<Rightarrow> 'a \<Rightarrow> nat" where
  "first_index xs x = length (takeWhile (\<lambda>y. y \<noteq> x) xs)"

text \<open>
  \<^verbatim>\<open>np.unique(ks, return_index=True)\<close>: the distinct values in ascending order, and for
  each the index of its first occurrence in \<open>ks\<close>.
\<close>

definition unique_index :: "int64 list \<Rightarrow> int64 list \<times> nat list" where
  "unique_index ks =
     (let us = sort_key sint (remdups ks) in (us, map (first_index ks) us))"

text \<open>\<^verbatim>\<open>np.argmin\<close>: the index of the first occurrence of the minimum.\<close>

definition argmin :: "real list \<Rightarrow> nat" where
  "argmin ds = first_index ds (fold min (tl ds) (hd ds))"

text \<open>
  \<^verbatim>\<open>group_points.mean(axis=0)\<close>: the rows are added one after the other in the dtype of
  the array, and the sum is divided by the number of rows. \<^verbatim>\<open>group_points - centroid\<close>
  for one row. \<^verbatim>\<open>np.linalg.norm(_, axis=1)\<close> for one row:
  \<^verbatim>\<open>sqrt(add.reduce((x.conj() * x).real, axis=1))\<close>.
\<close>

definition mean_axis0 :: "'a numpy_scheme \<Rightarrow> point list \<Rightarrow> point" where
  "mean_axis0 np ps =
     (np_true_divide np (add_reduce np (map fst ps)) (real (length ps)),
      np_true_divide np (add_reduce np (map (fst \<circ> snd) ps)) (real (length ps)),
      np_true_divide np (add_reduce np (map (snd \<circ> snd) ps)) (real (length ps)))"

definition subtract :: "'a numpy_scheme \<Rightarrow> point \<Rightarrow> point \<Rightarrow> point" where
  "subtract np p q =
     (case (p, q) of ((a, b, d), (x, y, z)) \<Rightarrow>
        (np_subtract np a x, np_subtract np b y, np_subtract np d z))"

definition linalg_norm :: "'a numpy_scheme \<Rightarrow> point \<Rightarrow> real" where
  "linalg_norm np p =
     (case p of (x, y, z) \<Rightarrow>
        np_sqrt np (add_reduce np [np_multiply np x x, np_multiply np y y, np_multiply np z z]))"

text \<open>
  The same three operations without rounding: the centroid of a list of points and the
  Euclidean norm, as mathematics has them.
\<close>

definition mean3 :: "point list \<Rightarrow> point" where
  "mean3 ps =
     (sum_list (map fst ps) / real (length ps),
      sum_list (map (fst \<circ> snd) ps) / real (length ps),
      sum_list (map (snd \<circ> snd) ps) / real (length ps))"

definition sub3 :: "point \<Rightarrow> point \<Rightarrow> point" where
  "sub3 p q = (case (p, q) of ((a, b, d), (x, y, z)) \<Rightarrow> (a - x, b - y, d - z))"

definition norm3 :: "point \<Rightarrow> real" where
  "norm3 p = (case p of (x, y, z) \<Rightarrow> sqrt (x\<^sup>2 + y\<^sup>2 + z\<^sup>2))"

subsection \<open>downsample\_voxel\_grid\_nearest\<close>

text \<open>The row-major linearised key of every point, lines 59 to 69.\<close>

definition voxel_keys :: "'a numpy_scheme \<Rightarrow> point list \<Rightarrow> real \<Rightarrow> int64 list" where
  "voxel_keys np points voxel_size =
     (let grid_indices = map (grid_index np voxel_size) points;
          offset = cells_min grid_indices;
          grid_indices = map (\<lambda>c. cell_sub c offset) grid_indices;
          max_idx = (case cells_max grid_indices of (a, b, d) \<Rightarrow> (a + 1, b + 1, d + 1))
      in map (\<lambda>(g0, g1, g2).
                g0 * (fst (snd max_idx) * snd (snd max_idx)) + g1 * snd (snd max_idx) + g2)
           grid_indices)"

text \<open>One pass of the loop of lines 78 to 83: the member chosen for one group.\<close>

definition select_in_group ::
  "'a numpy_scheme \<Rightarrow> point list \<Rightarrow> nat list \<Rightarrow> nat \<times> nat \<Rightarrow> nat" where
  "select_in_group np points sorted_indices se =
     (case se of (start, end) \<Rightarrow>
        (let group_point_indices = take (end - start) (drop start sorted_indices);
             group_points = map (\<lambda>i. points ! i) group_point_indices;
             centroid = mean_axis0 np group_points;
             distances = map (\<lambda>p. linalg_norm np (subtract np p centroid)) group_points
         in group_point_indices ! argmin distances))"

definition selected_indices :: "'a numpy_scheme \<Rightarrow> point list \<Rightarrow> real \<Rightarrow> nat list" where
  "selected_indices np points voxel_size =
     (let keys = voxel_keys np points voxel_size;
          sorted_indices = argsort np keys;
          sorted_keys = map (\<lambda>i. keys ! i) sorted_indices;
          group_starts = snd (unique_index sorted_keys);
          group_ends = tl group_starts @ [length sorted_keys]
      in map (select_in_group np points sorted_indices) (zip group_starts group_ends))"

text \<open>
  The function itself. \<^verbatim>\<open>grid_indices.min(axis=0)\<close> raises on an empty array, and the
  fancy indexing \<^verbatim>\<open>colors[selected_indices]\<close> raises when an index is beyond \<^verbatim>\<open>colors\<close>.
\<close>

definition downsample_voxel_grid_nearest ::
  "'a numpy_scheme \<Rightarrow> point list \<Rightarrow> color list \<Rightarrow> real
     \<Rightarrow> error + (point list \<times> color list \<times> nat list)" where
  "downsample_voxel_grid_nearest np points colors voxel_size =
     (if points = [] then Inl ValueError_zero_size
      else let sel = selected_indices np points voxel_size
           in if \<exists>i \<in> set sel. length colors \<le> i then Inl IndexError
              else Inr (map (\<lambda>i. points ! i) sel, map (\<lambda>i. colors ! i) sel, sel))"

subsection \<open>find\_voxel\_size\_for\_target\<close>

definition max_real :: "real list \<Rightarrow> real" where
  "max_real xs = fold max (tl xs) (hd xs)"

definition min_real :: "real list \<Rightarrow> real" where
  "min_real xs = fold min (tl xs) (hd xs)"

definition points_max :: "point list \<Rightarrow> point" where
  "points_max ps =
     (max_real (map fst ps), max_real (map (fst \<circ> snd) ps), max_real (map (snd \<circ> snd) ps))"

definition points_min :: "point list \<Rightarrow> point" where
  "points_min ps =
     (min_real (map fst ps), min_real (map (fst \<circ> snd) ps), min_real (map (snd \<circ> snd) ps))"

text \<open>
  \<^verbatim>\<open>len(np.unique(np.floor(points / vmid).astype(np.int64), axis=0))\<close>: the number of
  occupied voxels at edge length \<open>vmid\<close>.
\<close>

definition occupied :: "'a numpy_scheme \<Rightarrow> point list \<Rightarrow> real \<Rightarrow> nat" where
  "occupied np points vmid = length (remdups (map (grid_index np vmid) points))"

text \<open>
  The loop \<^verbatim>\<open>for _ in range(n)\<close> of lines 93 to 102, from the bounds it starts an
  iteration with. \<^verbatim>\<open>count\<close> and \<^verbatim>\<open>target\<close> are Python integers, so the division by a
  zero \<^verbatim>\<open>target\<close> raises; \<^verbatim>\<open>return vmid\<close> after the loop returns the midpoint of the last
  iteration, and would find \<^verbatim>\<open>vmid\<close> unbound had the loop no iteration.
\<close>

fun search ::
  "'a numpy_scheme \<Rightarrow> point list \<Rightarrow> int \<Rightarrow> real \<Rightarrow> nat \<Rightarrow> real \<Rightarrow> real \<Rightarrow> error + real" where
  "search np points target tol 0 vmin vmax = Inl UnboundLocalError"
| "search np points target tol (Suc n) vmin vmax =
     (let vmid = (vmin + vmax) / 2;
          count = int (occupied np points vmid)
      in if target = 0 then Inl ZeroDivisionError
         else if \<bar>real_of_int (count - target)\<bar> / real_of_int target \<le> tol then Inr vmid
         else if n = 0 then Inr vmid
         else if count > target then search np points target tol n vmid vmax
         else search np points target tol n vmin vmid)"

text \<open>
  \<^verbatim>\<open>points.max(0)\<close> raises on an empty array. The diagonal, the two bounds and the
  midpoints are taken as the exact values (\<^const>\<open>norm3\<close> of \<^const>\<open>sub3\<close>): the scalars
  are \<^verbatim>\<open>float32\<close> or \<^verbatim>\<open>float64\<close> depending on the NumPy version. For a negative \<^verbatim>\<open>target\<close>, Python's
  \<^verbatim>\<open>target ** (1/3)\<close> is a complex number, the bounds and the midpoint are complex, and
  \<^verbatim>\<open>np.floor\<close> of the complex quotient raises \<^verbatim>\<open>TypeError\<close> in the first iteration.
\<close>

definition find_voxel_size_for_target ::
  "'a numpy_scheme \<Rightarrow> point list \<Rightarrow> int \<Rightarrow> real \<Rightarrow> error + real" where
  "find_voxel_size_for_target np points target tol =
     (if points = [] then Inl ValueError_zero_size
      else if target < 0 then Inl TypeError
      else let bbox_diag = norm3 (sub3 (points_max points) (points_min points));
               vmin = bbox_diag / (real_of_int target powr (1 / 3) * 10);
               vmax = bbox_diag / 2
           in search np points target tol 50 vmin vmax)"

subsection \<open>downsample\_to\_target\<close>

text \<open>
  \<^verbatim>\<open>int(target_size_bytes / 14)\<close>. The true division of two Python integers gives the
  \<^verbatim>\<open>float\<close> nearest to the quotient and raises \<^verbatim>\<open>OverflowError\<close> when that is beyond the
  range of \<^verbatim>\<open>float\<close>; \<^verbatim>\<open>int\<close> truncates towards zero.
\<close>

definition bytes_to_count :: "int \<Rightarrow> error + int" where
  "bytes_to_count b =
     (let q = float64 (real_of_int b / 14)
      in if 2 ^ 1024 \<le> \<bar>q\<bar> then Inl OverflowError
         else Inr (if 0 \<le> q then \<lfloor>q\<rfloor> else \<lceil>q\<rceil>))"

definition downsample_to_target ::
  "'a numpy_scheme \<Rightarrow> point list \<Rightarrow> color list \<Rightarrow> int option \<Rightarrow> int option
     \<Rightarrow> error + (point list \<times> color list)" where
  "downsample_to_target np points colors target_count target_size_bytes =
     (case (if target_count = None \<and> target_size_bytes \<noteq> None \<and> target_size_bytes \<noteq> Some 0
            then (case bytes_to_count (the target_size_bytes) of
                    Inl e \<Rightarrow> Inl e
                  | Inr t \<Rightarrow> Inr (Some t))
            else Inr target_count) of
        Inl e \<Rightarrow> Inl e
      | Inr target_count \<Rightarrow>
          (case target_count of
             None \<Rightarrow> Inl ValueError_no_target
           | Some t \<Rightarrow>
               if int (length points) \<le> t then Inr (points, colors)
               else (case find_voxel_size_for_target np points t (5 / 100) of
                       Inl e \<Rightarrow> Inl e
                     | Inr voxel_size \<Rightarrow>
                         (case downsample_voxel_grid_nearest np points colors voxel_size of
                            Inl e \<Rightarrow> Inl e
                          | Inr (pts, cols, _) \<Rightarrow> Inr (pts, cols)))))"

text \<open>
  The member that one pass of the loop chooses, as a function of the group's members in
  the order \<^verbatim>\<open>sorted_indices\<close> lists them, and the distance the loop computes for a member
  of the group: the \<^verbatim>\<open>distances\<close> entry of that member.
\<close>

definition computed_dist :: "'a numpy_scheme \<Rightarrow> point list \<Rightarrow> nat list \<Rightarrow> nat \<Rightarrow> real" where
  "computed_dist np points members i =
     linalg_norm np (subtract np (points ! i) (mean_axis0 np (map (\<lambda>i. points ! i) members)))"

definition group_choice :: "'a numpy_scheme \<Rightarrow> point list \<Rightarrow> nat list \<Rightarrow> nat" where
  "group_choice np points members =
     members ! argmin (map (computed_dist np points members) members)"

text \<open>
  The distinct voxel keys in ascending order, the members of the group of one key in the
  order \<^verbatim>\<open>sorted_indices\<close> lists them, and the Euclidean distance of a member from the
  centroid of its group, both exact.
\<close>

definition occupied_keys :: "'a numpy_scheme \<Rightarrow> point list \<Rightarrow> real \<Rightarrow> int64 list" where
  "occupied_keys np points v = sort_key sint (remdups (voxel_keys np points v))"

definition voxel_members :: "'a numpy_scheme \<Rightarrow> point list \<Rightarrow> real \<Rightarrow> int64 \<Rightarrow> nat list" where
  "voxel_members np points v u =
     filter (\<lambda>i. voxel_keys np points v ! i = u) (argsort np (voxel_keys np points v))"

definition centroid_dist :: "point list \<Rightarrow> nat list \<Rightarrow> nat \<Rightarrow> real" where
  "centroid_dist points members i =
     norm3 (sub3 (points ! i) (mean3 (map (\<lambda>i. points ! i) members)))"



text \<open>
  The number of grid cells along one axis, from the least to the greatest index of a
  column, and the condition that the product of the three numbers, the size of the range
  of the row-major key, is below \<open>2\<^sup>6\<^sup>3\<close>.
\<close>

definition axis_cells :: "int64 list \<Rightarrow> int" where
  "axis_cells col = sint (max64 col) - sint (min64 col) + 1"

definition key_fits :: "'a numpy_scheme \<Rightarrow> point list \<Rightarrow> real \<Rightarrow> bool" where
  "key_fits np points v \<longleftrightarrow>
     (let cs = map (grid_index np v) points
      in axis_cells (map fst cs) * axis_cells (map (fst \<circ> snd) cs)
           * axis_cells (map (snd \<circ> snd) cs) < 2 ^ 63)"

section \<open>reader.py\<close>

text \<open>
  \<^verbatim>\<open>read_sog\<close> gets the parsed \<^verbatim>\<open>vertex\<close> element from the \<^verbatim>\<open>plyfile\<close> library: the
  position columns, and the three \<^verbatim>\<open>f_dc\<close> columns when the file declares them.
  The arithmetic on an \<^verbatim>\<open>f_dc\<close> column is done in the dtype of the column, to which the
  Python scalars \<^verbatim>\<open>SH_C0\<close>, \<^verbatim>\<open>0.5\<close> and \<^verbatim>\<open>255\<close> are converted.
  \<^verbatim>\<open>np.clip(a, a_min, a_max)\<close> is \<^verbatim>\<open>minimum(a_max, maximum(a, a_min))\<close>, and
  \<^verbatim>\<open>astype(np.uint8)\<close> of a float discards the fractional part.
\<close>

definition SH_C0 :: real where
  "SH_C0 = 0.28209479177387814"

definition clip :: "real \<Rightarrow> real \<Rightarrow> real \<Rightarrow> real" where
  "clip a a_min a_max = min a_max (max a a_min)"

definition astype_uint8 :: "real \<Rightarrow> 8 word" where
  "astype_uint8 a = word_of_int (if 0 \<le> a then \<lfloor>a\<rfloor> else \<lceil>a\<rceil>)"

text \<open>\<^verbatim>\<open>(0.5 + SH_C0 * v['f_dc_i']) * 255\<close> for one element of the column.\<close>

definition sh_value :: "'a numpy_scheme \<Rightarrow> real \<Rightarrow> real" where
  "sh_value np f = np_multiply np (np_add np 0.5 (np_multiply np SH_C0 f)) 255"

definition sh_channel :: "'a numpy_scheme \<Rightarrow> real \<Rightarrow> 8 word" where
  "sh_channel np f = astype_uint8 (clip (sh_value np f) 0 255)"

record vertex_element =
  xyz :: "point list"
  f_dc :: "(real \<times> real \<times> real) list option"

definition read_sog :: "'a numpy_scheme \<Rightarrow> vertex_element \<Rightarrow> point list \<times> color list" where
  "read_sog np v =
     (let points = map (\<lambda>(x, y, z). (float32 x, float32 y, float32 z)) (xyz v);
          colors = (case f_dc v of
                      Some fs \<Rightarrow>
                        map (\<lambda>(f0, f1, f2). (sh_channel np f0, sh_channel np f1, sh_channel np f2)) fs
                    | None \<Rightarrow> replicate (length points) (255, 255, 255))
      in (points, colors))"

text \<open>
  The decode as the specification words it,
  \<^verbatim>\<open>clamp(0, 255, round((0.5 + 0.28209479177387814 * f_dc_i) * 255))\<close>, to compare with
  \<^const>\<open>sh_channel\<close>, and the same with the fractional part discarded in place of \<open>round\<close>.
\<close>

definition spec_sh_channel :: "real \<Rightarrow> int" where
  "spec_sh_channel f = max 0 (min 255 (round ((0.5 + 0.28209479177387814 * f) * 255)))"

definition exact_sh_channel :: "real \<Rightarrow> int" where
  "exact_sh_channel f = \<lfloor>clip ((0.5 + 0.28209479177387814 * f) * 255) 0 255\<rfloor>"

section \<open>exporter.py\<close>

text \<open>
  The \<^verbatim>\<open>GLTF2\<close> object that \<^verbatim>\<open>_create_glb\<close> builds, with the fields the source sets.
  \<^verbatim>\<open>points\<close> and \<^verbatim>\<open>colors_f\<close> are \<^verbatim>\<open>float32\<close> arrays: the byte string \<^verbatim>\<open>tobytes()\<close>
  makes of one is modelled as the sequence of its elements in row order, each element
  standing for its four bytes, so that \<^verbatim>\<open>len\<close> of the byte string is four times the
  number of elements.
\<close>

record accessor =
  acc_bufferView :: nat
  acc_componentType :: nat
  acc_count :: nat
  acc_type :: string
  acc_max :: "real list option"
  acc_min :: "real list option"

record buffer_view =
  bv_buffer :: nat
  bv_byteOffset :: nat
  bv_byteLength :: nat

record primitive =
  attributes :: "(string \<times> nat) list"
  mode :: nat

record gltf2 =
  scene :: nat
  scenes :: "nat list list"
  nodes :: "nat list"
  meshes :: "primitive list list"
  accessors :: "accessor list"
  bufferViews :: "buffer_view list"
  buffers :: "nat list"
  binary_blob :: "real list"

definition tobytes :: "point list \<Rightarrow> real list" where
  "tobytes rows = concat (map (\<lambda>(x, y, z). [x, y, z]) rows)"

definition len_bytes :: "real list \<Rightarrow> nat" where
  "len_bytes b = 4 * length b"

text \<open>\<^verbatim>\<open>colors.astype(np.float32) / 255.0\<close>: a \<^verbatim>\<open>float32\<close> division.\<close>

definition colors_float :: "color list \<Rightarrow> point list" where
  "colors_float colors =
     map (\<lambda>(r, g, b). (float32 (real (unat r) / 255), float32 (real (unat g) / 255),
                       float32 (real (unat b) / 255))) colors"

definition tolist :: "point \<Rightarrow> real list" where
  "tolist p = (case p of (x, y, z) \<Rightarrow> [x, y, z])"

text \<open>\<^verbatim>\<open>points.max(0)\<close> raises on an empty array, before anything is written.\<close>

definition glb_document :: "point list \<Rightarrow> color list \<Rightarrow> error + gltf2" where
  "glb_document points colors =
     (let n = length points;
          colors_f = colors_float colors;
          pos_bytes = tobytes points;
          col_bytes = tobytes colors_f
      in if points = [] then Inl ValueError_zero_size
         else Inr \<lparr>
           scene = 0,
           scenes = [ [0] ],
           nodes = [0],
           meshes = [ [\<lparr>attributes = [(''POSITION'', 0), (''COLOR_0'', 1)], mode = 0\<rparr>] ],
           accessors =
             [\<lparr>acc_bufferView = 0, acc_componentType = 5126, acc_count = n, acc_type = ''VEC3'',
               acc_max = Some (tolist (points_max points)),
               acc_min = Some (tolist (points_min points))\<rparr>,
              \<lparr>acc_bufferView = 1, acc_componentType = 5126, acc_count = n, acc_type = ''VEC3'',
               acc_max = None, acc_min = None\<rparr>],
           bufferViews =
             [\<lparr>bv_buffer = 0, bv_byteOffset = 0, bv_byteLength = len_bytes pos_bytes\<rparr>,
              \<lparr>bv_buffer = 0, bv_byteOffset = len_bytes pos_bytes,
               bv_byteLength = len_bytes col_bytes\<rparr>],
           buffers = [len_bytes pos_bytes + len_bytes col_bytes],
           binary_blob = pos_bytes @ col_bytes\<rparr>)"

text \<open>
  The file system is a map from paths to contents. What the program does not contain is
  a parameter: the name \<^verbatim>\<open>NamedTemporaryFile\<close> picks, the serialiser of \<^verbatim>\<open>pygltflib\<close>
  (\<^verbatim>\<open>gltf.save\<close>), and the external process that \<^verbatim>\<open>subprocess.run\<close> starts, which either
  is not found or exits with a return code and leaves the file system changed.
\<close>

type_synonym path = string
type_synonym filesystem = "path \<rightharpoonup> 8 word list"

datatype completed = NotFound | Exit int

record world =
  temp_name :: "filesystem \<Rightarrow> path"
  gltf_save :: "gltf2 \<Rightarrow> 8 word list"
  subprocess :: "string list \<Rightarrow> filesystem \<Rightarrow> completed \<times> filesystem"

definition create_glb ::
  "'a world_scheme \<Rightarrow> point list \<Rightarrow> color list \<Rightarrow> path \<Rightarrow> filesystem
     \<Rightarrow> (error + unit) \<times> filesystem" where
  "create_glb w points colors path fs =
     (case glb_document points colors of
        Inl e \<Rightarrow> (Inl e, fs)
      | Inr gltf \<Rightarrow> (Inr (), fs(path \<mapsto> gltf_save w gltf)))"

text \<open>
  \<^verbatim>\<open>export_glb_with_draco\<close>, statement by statement. \<^verbatim>\<open>check=True\<close> turns a non-zero
  return code into \<^verbatim>\<open>CalledProcessError\<close>; \<^verbatim>\<open>stat\<close> raises when \<^verbatim>\<open>output\<close> does not
  exist. An exception leaves the function at the statement that raised it.
\<close>

definition export_glb_with_draco ::
  "'a world_scheme \<Rightarrow> point list \<Rightarrow> color list \<Rightarrow> path \<Rightarrow> filesystem
     \<Rightarrow> (error + nat) \<times> filesystem" where
  "export_glb_with_draco w points colors output fs =
     (let tmp_path = temp_name w fs;
          fs = fs(tmp_path \<mapsto> [])
      in case create_glb w points colors tmp_path fs of
           (Inl e, fs) \<Rightarrow> (Inl e, fs)
         | (Inr _, fs) \<Rightarrow>
             (case subprocess w
                     [''draco_transcoder'', ''-i'', tmp_path, ''-o'', output,
                      ''-cl'', ''7'', ''-qp'', ''14'', ''-qc'', ''10''] fs of
                (NotFound, fs) \<Rightarrow> (Inl FileNotFoundError, fs)
              | (Exit returncode, fs) \<Rightarrow>
                  if returncode \<noteq> 0 then (Inl (CalledProcessError returncode), fs)
                  else let fs = fs(tmp_path := None)
                       in (case fs output of
                             None \<Rightarrow> (Inl FileNotFoundError, fs)
                           | Some b \<Rightarrow> (Inr (length b), fs))))"

text \<open>
  Two transcoders to run the exporter with: one that exits with code 1 and writes
  nothing, and one that copies its input file to its output file and exits with 0.
\<close>

definition transcoder_fails :: "string list \<Rightarrow> filesystem \<Rightarrow> completed \<times> filesystem" where
  "transcoder_fails args fs = (Exit 1, fs)"

definition transcoder_copies :: "string list \<Rightarrow> filesystem \<Rightarrow> completed \<times> filesystem" where
  "transcoder_copies args fs = (Exit 0, fs(args ! 4 := fs (args ! 2)))"

definition world_failing :: world where
  "world_failing =
     \<lparr>temp_name = (\<lambda>fs. ''/tmp/tmpab12.glb''), gltf_save = (\<lambda>g. [103, 108, 84, 70]),
      subprocess = transcoder_fails\<rparr>"

definition world_working :: world where
  "world_working =
     \<lparr>temp_name = (\<lambda>fs. ''/tmp/tmpab12.glb''), gltf_save = (\<lambda>g. [103, 108, 84, 70]),
      subprocess = transcoder_copies\<rparr>"

section \<open>Floating-point rounding\<close>

lemma pow2_powr: "pow2 e = 2 powr real_of_int e"
  by (simp add: pow2_def powr_int)

lemma pow2_pos: "0 < pow2 e"
  by (simp add: pow2_powr)

lemma pow2_add: "pow2 (a + b) = pow2 a * pow2 b"
  by (simp add: pow2_powr powr_add)

lemma pow2_less: "pow2 a < pow2 b \<longleftrightarrow> a < b"
  by (simp add: pow2_powr)

lemma pow2_nat: "0 \<le> d \<Longrightarrow> pow2 d = real_of_int (2 ^ nat d)"
  by (simp add: pow2_def)

lemma round_half_even_of_int: "round_half_even (real_of_int n) = n"
  by (simp add: round_half_even_def)

lemma round_half_even_minus: "round_half_even (- q) = - round_half_even q"
proof (cases "q = real_of_int \<lfloor>q\<rfloor>")
  case True
  have "round_half_even (- real_of_int \<lfloor>q\<rfloor>) = - round_half_even (real_of_int \<lfloor>q\<rfloor>)"
    using round_half_even_of_int [of "- \<lfloor>q\<rfloor>"] round_half_even_of_int [of "\<lfloor>q\<rfloor>"] by simp
  then show ?thesis using True by simp
next
  case False
  let ?n = "\<lfloor>q\<rfloor>"
  have "real_of_int ?n \<le> q" by (rule of_int_floor_le)
  then have lt: "real_of_int ?n < q" using False by linarith
  have fm: "\<lfloor>- q\<rfloor> = - ?n - 1"
    using lt by (simp add: floor_eq_iff) linarith
  define r where "r = q - real_of_int ?n"
  have r: "0 < r" "r < 1" using lt by (simp_all add: r_def) linarith
  have rm: "- q - real_of_int (- ?n - 1) = 1 - r" by (simp add: r_def)
  show ?thesis
    unfolding round_half_even_def Let_def fm rm r_def [symmetric]
    using r by auto
qed

lemma round_to_binade:
  assumes "pow2 e \<le> \<bar>x\<bar>" "\<bar>x\<bar> < pow2 (e + 1)"
  shows "round_to p x =
    pow2 (e - int p + 1) * real_of_int (round_half_even (x / pow2 (e - int p + 1)))"
proof -
  have pos: "0 < \<bar>x\<bar>" using assms(1) pow2_pos [of e] by linarith
  then have nz: "x \<noteq> 0" by simp
  have "\<lfloor>log 2 \<bar>x\<bar>\<rfloor> = e"
    using assms pos by (simp add: floor_log_eq_powr_iff pow2_powr)
  then show ?thesis using nz by (simp add: round_to_def Let_def)
qed

lemma binade_exists:
  assumes "x \<noteq> 0"
  shows "pow2 \<lfloor>log 2 \<bar>x\<bar>\<rfloor> \<le> \<bar>x\<bar> \<and> \<bar>x\<bar> < pow2 (\<lfloor>log 2 \<bar>x\<bar>\<rfloor> + 1)"
proof -
  have "0 < \<bar>x\<bar>" using assms by simp
  then show ?thesis
    using floor_log_eq_powr_iff [of "\<bar>x\<bar>" 2 "\<lfloor>log 2 \<bar>x\<bar>\<rfloor>"] by (simp add: pow2_powr)
qed

lemma round_to_0: "round_to p 0 = 0"
  by (simp add: round_to_def)

lemma round_to_minus: "round_to p (- x) = - round_to p x"
  by (simp add: round_to_def round_half_even_minus Let_def)

lemma round_to_exact:
  assumes m: "\<bar>m\<bar> < 2 ^ p"
  shows "round_to p (real_of_int m * pow2 j) = real_of_int m * pow2 j"
proof (cases "m = 0")
  case True
  then show ?thesis by (simp add: round_to_def)
next
  case False
  define x where "x = real_of_int m * pow2 j"
  define e where "e = \<lfloor>log 2 \<bar>x\<bar>\<rfloor>"
  have xnz: "x \<noteq> 0" using False pow2_pos [of j] by (simp add: x_def)
  have b: "pow2 e \<le> \<bar>x\<bar>" "\<bar>x\<bar> < pow2 (e + 1)"
    using binade_exists [OF xnz] by (simp_all add: e_def)
  have "real_of_int \<bar>m\<bar> < real_of_int (2 ^ p)" using m by (simp only: of_int_less_iff)
  then have "\<bar>real_of_int m\<bar> < pow2 (int p)" by (simp add: pow2_def)
  then have "\<bar>x\<bar> < pow2 (int p) * pow2 j"
    using pow2_pos [of j] by (simp add: x_def abs_mult)
  then have "pow2 e < pow2 (int p + j)" using b(1) by (simp add: pow2_add)
  then have ej: "e < int p + j" by (simp add: pow2_less)
  define d where "d = j - (e - int p + 1)"
  have d: "0 \<le> d" using ej by (simp add: d_def)
  have "pow2 j = pow2 (e - int p + 1) * pow2 d"
    by (simp add: pow2_add [symmetric] d_def)
  then have q: "x / pow2 (e - int p + 1) = real_of_int (m * 2 ^ nat d)"
    using pow2_pos [of "e - int p + 1"] by (simp add: x_def pow2_nat [OF d])
  have "round_to p x = pow2 (e - int p + 1) * real_of_int (m * 2 ^ nat d)"
    unfolding round_to_binade [OF b] q round_half_even_of_int ..
  also have "\<dots> = pow2 (e - int p + 1) * (x / pow2 (e - int p + 1))" by (simp only: q)
  also have "\<dots> = x" using pow2_pos [of "e - int p + 1"] by simp
  finally show ?thesis by (simp add: x_def)
qed

lemma pow2_int: "pow2 (int p) = 2 ^ p"
  by (simp add: pow2_def)

lemma round_half_even_bounds:
  assumes "real_of_int a \<le> q" "q \<le> real_of_int b"
  shows "a \<le> round_half_even q" "round_half_even q \<le> b"
proof -
  have n: "a \<le> \<lfloor>q\<rfloor>" using assms(1) by (simp add: le_floor_iff)
  have r: "round_half_even q = \<lfloor>q\<rfloor> \<or> round_half_even q = \<lfloor>q\<rfloor> + 1"
    by (simp add: round_half_even_def Let_def)
  show "a \<le> round_half_even q" using n r by linarith
  show "round_half_even q \<le> b"
  proof (cases "q = real_of_int b")
    case True
    then show ?thesis by (simp add: round_half_even_of_int)
  next
    case False
    then have "q < real_of_int b" using assms(2) by linarith
    then have "\<lfloor>q\<rfloor> < b" by (simp add: floor_less_iff)
    then show ?thesis using r by linarith
  qed
qed

text \<open>A rounded number is a number of the format: rounding it again changes nothing.\<close>

lemma round_to_idem:
  assumes p: "0 < p"
  shows "round_to p (round_to p x) = round_to p x"
proof (cases "x = 0")
  case True
  then show ?thesis by (simp add: round_to_0)
next
  case False
  define e where "e = \<lfloor>log 2 \<bar>x\<bar>\<rfloor>"
  define j where "j = e - int p + 1"
  define m where "m = round_half_even (x / pow2 j)"
  have b: "pow2 e \<le> \<bar>x\<bar>" "\<bar>x\<bar> < pow2 (e + 1)"
    using binade_exists [OF False] by (simp_all add: e_def)
  have r: "round_to p x = real_of_int m * pow2 j"
    unfolding round_to_binade [OF b] m_def j_def by simp
  have "pow2 (e + 1) = pow2 j * pow2 (int p)"
    by (simp add: pow2_add [symmetric] j_def)
  then have "\<bar>x\<bar> < pow2 j * 2 ^ p" using b(2) by (simp add: pow2_def)
  then have "\<bar>x\<bar> / pow2 j < 2 ^ p"
    using pow2_pos [of j] by (simp add: field_simps)
  then have q: "\<bar>x / pow2 j\<bar> < 2 ^ p" using pow2_pos [of j] by simp
  have c: "real_of_int (2 ^ p) = 2 ^ p" "real_of_int (- (2 ^ p)) = - (2 ^ p)" by simp_all
  have lo: "real_of_int (- (2 ^ p)) \<le> x / pow2 j" unfolding c using q by linarith
  have hi: "x / pow2 j \<le> real_of_int (2 ^ p)" unfolding c using q by linarith
  have mb: "- (2 ^ p) \<le> m" "m \<le> 2 ^ p"
    unfolding m_def using round_half_even_bounds [OF lo hi] by simp_all
  consider "\<bar>m\<bar> < 2 ^ p" | "m = 2 ^ p" | "m = - (2 ^ p)" using mb by linarith
  then have "round_to p (real_of_int m * pow2 j) = real_of_int m * pow2 j"
  proof cases
    case 1
    then show ?thesis by (rule round_to_exact)
  next
    case 2
    have one: "\<bar>1 :: int\<bar> < 2 ^ p" using p by simp
    have "real_of_int m * pow2 j = real_of_int 1 * pow2 (int p + j)"
      by (simp add: 2 pow2_add pow2_int)
    then show ?thesis using round_to_exact [OF one, of "int p + j"] by simp
  next
    case 3
    have one: "\<bar>- 1 :: int\<bar> < 2 ^ p" using p by simp
    have "real_of_int m * pow2 j = real_of_int (- 1) * pow2 (int p + j)"
      by (simp add: 3 pow2_add pow2_int)
    then show ?thesis using round_to_exact [OF one, of "int p + j"] by simp
  qed
  then show ?thesis by (simp only: r)
qed

lemma float32_idem [simp]: "float32 (float32 x) = float32 x"
  unfolding float32_def by (rule round_to_idem) simp

lemma float64_idem [simp]: "float64 (float64 x) = float64 x"
  unfolding float64_def by (rule round_to_idem) simp

lemma float32_0 [simp]: "float32 0 = 0"
  by (simp add: float32_def round_to_0)

lemma float32_minus [simp]: "float32 (- x) = - float32 x"
  by (simp add: float32_def round_to_minus)

lemma float32_exact: "\<bar>m\<bar> < 16777216 \<Longrightarrow> float32 (real_of_int m * pow2 j) = real_of_int m * pow2 j"
  unfolding float32_def by (rule round_to_exact) simp

lemma float32_1 [simp]: "float32 1 = 1"
  using float32_exact [of 1 0] by (simp add: pow2_def)

lemma float32_numeral [simp]:
  "(numeral n :: int) < 16777216 \<Longrightarrow> float32 (numeral n) = numeral n"
  using float32_exact [of "numeral n" 0] by (simp add: pow2_def)

lemma float32_dyadic:
  "float32 (1 / 2) = 1 / 2"
  "float32 (255 / 2) = 255 / 2"
  "float32 (132103 / 131072) = 132103 / 131072"
  "float32 (13158601 / 16777216) = 13158601 / 16777216"
  "float32 (4769993 / 16777216) = 4769993 / 16777216"
  "float32 (9465531 / 16777216) = 9465531 / 16777216"
  "float32 (1076923 / 16777216) = 1076923 / 16777216"
  "float32 33554396 = 33554396"
  "float32 50331596 = 50331596"
  "float32 50331592 = 50331592"
  using float32_exact [of 1 "- 1"] float32_exact [of 255 "- 1"] float32_exact [of 132103 "- 17"]
    float32_exact [of 13158601 "- 24"] float32_exact [of 4769993 "- 24"]
    float32_exact [of 9465531 "- 24"] float32_exact [of 1076923 "- 24"]
    float32_exact [of 8388599 2] float32_exact [of 12582899 2] float32_exact [of 6291449 3]
  by (simp_all add: pow2_def)

text \<open>Results that are not \<^verbatim>\<open>float32\<close> numbers, and what they round to.\<close>

lemma float32_33554395: "float32 33554395 = 33554396"
  unfolding float32_def
  by (subst round_to_binade [of 24]) (simp_all add: pow2_def round_half_even_def)

lemma float32_50331595: "float32 50331595 = 50331596"
  unfolding float32_def
  by (subst round_to_binade [of 25]) (simp_all add: pow2_def round_half_even_def)

lemma float32_33554397: "float32 33554397 = 33554396"
  unfolding float32_def
  by (subst round_to_binade [of 24]) (simp_all add: pow2_def round_half_even_def)

lemma float32_50331594: "float32 50331594 = 50331592"
  unfolding float32_def
  by (subst round_to_binade [of 25]) (simp_all add: pow2_def round_half_even_def)

lemma float32_50331593: "float32 50331593 = 50331592"
  unfolding float32_def
  by (subst round_to_binade [of 25]) (simp_all add: pow2_def round_half_even_def)

lemma float32_50331592_3: "float32 (50331592 / 3) = 16777197"
  unfolding float32_def
  by (subst round_to_binade [of 23]) (simp_all add: pow2_def round_half_even_def)

lemma float32_50331596_3: "float32 (50331596 / 3) = 16777199"
  unfolding float32_def
  by (subst round_to_binade [of 23]) (simp_all add: pow2_def round_half_even_def)

lemma float32_fifth: "float32 (1 / 5) = 13421773 / 67108864"
  unfolding float32_def
  by (subst round_to_binade [of "- 3"]) (simp_all add: pow2_def round_half_even_def)

lemma float32_SH_C0: "float32 (14104739588693907 / 50000000000000000) = 9465531 / 33554432"
  unfolding float32_def
  by (subst round_to_binade [of "- 2"]) (simp_all add: pow2_def round_half_even_def)

lemma float32_sh_product: "float32 (1250425041693 / 4398046511104) = 4769993 / 16777216"
  unfolding float32_def
  by (subst round_to_binade [of "- 2"]) (simp_all add: pow2_def round_half_even_def)

lemma float32_sh_scaled: "float32 (3355443255 / 16777216) = 200"
  unfolding float32_def
  by (subst round_to_binade [of 7]) (simp_all add: pow2_def round_half_even_def)

lemma float32_sh_negative: "float32 (274615365 / 16777216) = 4290865 / 262144"
  unfolding float32_def
  by (subst round_to_binade [of 4]) (simp_all add: pow2_def round_half_even_def)

lemma float64_0 [simp]: "float64 0 = 0"
  by (simp add: float64_def round_to_0)

lemma float64_exact:
  "\<bar>m\<bar> < 9007199254740992 \<Longrightarrow> float64 (real_of_int m * pow2 j) = real_of_int m * pow2 j"
  unfolding float64_def by (rule round_to_exact) simp

lemma float64_numeral [simp]:
  "(numeral n :: int) < 9007199254740992 \<Longrightarrow> float64 (numeral n) = numeral n"
  using float64_exact [of "numeral n" 0] by (simp add: pow2_def)

lemma float64_dyadic:
  "float64 (1 / 2) = 1 / 2"
  "float64 (255 / 2) = 255 / 2"
  using float64_exact [of 1 "- 1"] float64_exact [of 255 "- 1"]
  by (simp_all add: pow2_def)

text \<open>
  The quotient of a byte budget by 14 is rounded before it is truncated:
  \<open>31525197391593485 / 14\<close> is \<open>2251799813685248.93\<close>, the nearest \<^verbatim>\<open>float\<close> is
  \<open>2251799813685249\<close>.
\<close>

lemma float64_budget: "float64 (31525197391593485 / 14) = 2251799813685249"
  unfolding float64_def
  by (subst round_to_binade [of 51]) (simp_all add: pow2_def round_half_even_def)

lemma bytes_to_count_rounds: "bytes_to_count 31525197391593485 = Inr 2251799813685249"
  by (simp add: bytes_to_count_def float64_budget)

lemma bytes_to_count_exact: "bytes_to_count 140 = Inr 10"
  by (simp add: bytes_to_count_def)

section \<open>Sorted lists and their runs of equal keys\<close>

lemma sorted_split3:
  "sorted (map h xs) \<Longrightarrow>
   xs = filter (\<lambda>x. h x < v) xs @ filter (\<lambda>x. h x = v) xs @ filter (\<lambda>x. v < h x) xs"
proof (induction xs)
  case Nil
  then show ?case by simp
next
  case (Cons x xs)
  then have le: "\<forall>y \<in> set xs. h x \<le> h y" and IH: "xs = filter (\<lambda>x. h x < v) xs @ filter (\<lambda>x. h x = v) xs @ filter (\<lambda>x. v < h x) xs"
    by auto
  consider "h x < v" | "h x = v" | "v < h x" by (meson not_less_iff_gr_or_eq)
  then show ?case
  proof cases
    case 1
    then show ?thesis using IH by auto
  next
    case 2
    then have "filter (\<lambda>x. h x < v) xs = []" using le by (auto simp: filter_empty_conv)
    then show ?thesis using 2 IH by auto
  next
    case 3
    then have "filter (\<lambda>x. h x < v) xs = []" "filter (\<lambda>x. h x = v) xs = []"
      using le by (auto simp: filter_empty_conv)
    then show ?thesis using 3 IH by auto
  qed
qed

lemma first_index_sorted:
  assumes "inj f" "sorted (map (\<lambda>x. f (g x)) xs)" "u \<in> g ` set xs"
  shows "first_index (map g xs) u = length (filter (\<lambda>x. f (g x) < f u) xs)"
  using assms(2,3)
proof (induction xs)
  case Nil
  then show ?case by simp
next
  case (Cons x xs)
  then have le: "\<forall>y \<in> set xs. f (g x) \<le> f (g y)" by auto
  show ?case
  proof (cases "g x = u")
    case True
    then have "filter (\<lambda>x. f (g x) < f u) xs = []" using le by (auto simp: filter_empty_conv)
    then show ?thesis using True by (simp add: first_index_def)
  next
    case False
    then have u: "u \<in> g ` set xs" using Cons.prems by auto
    then have "f (g x) \<le> f u" using le by auto
    moreover have "f (g x) \<noteq> f u" using False assms(1) by (auto dest: injD)
    ultimately have "f (g x) < f u" by simp
    moreover have "first_index (map g xs) u = length (filter (\<lambda>x. f (g x) < f u) xs)"
      using Cons u by auto
    ultimately show ?thesis using False by (simp add: first_index_def)
  qed
qed

lemma length_filter_le_split:
  "length (filter (\<lambda>x. h x \<le> (v::'b::linorder)) xs) =
   length (filter (\<lambda>x. h x < v) xs) + length (filter (\<lambda>x. h x = v) xs)"
  by (induction xs) auto

lemma take_drop_run:
  assumes "sorted (map h xs)"
  shows "take (length (filter (\<lambda>x. h x \<le> v) xs) - length (filter (\<lambda>x. h x < v) xs))
           (drop (length (filter (\<lambda>x. h x < v) xs)) xs) = filter (\<lambda>x. h x = v) xs"
proof -
  let ?A = "filter (\<lambda>x. h x < v) xs" and ?B = "filter (\<lambda>x. h x = v) xs"
  let ?C = "filter (\<lambda>x. v < h x) xs"
  have xs: "xs = ?A @ ?B @ ?C" by (rule sorted_split3 [OF assms])
  have "take (length ?B) (drop (length ?A) (?A @ ?B @ ?C)) = ?B" by simp
  then have "take (length ?B) (drop (length ?A) xs) = ?B" using xs by simp
  then show ?thesis by (simp add: length_filter_le_split)
qed

lemma strict_index_mono:
  assumes "sorted_wrt (<) (vs :: 'b::linorder list)" "j < length vs" "k < length vs"
  shows "vs ! j < vs ! k \<longleftrightarrow> j < k"
proof
  assume "j < k" then show "vs ! j < vs ! k"
    using assms by (simp add: sorted_wrt_iff_nth_less)
next
  assume lt: "vs ! j < vs ! k"
  show "j < k"
  proof (rule ccontr)
    assume "\<not> j < k"
    then consider "j = k" | "k < j" by linarith
    then show False
    proof cases
      case 1 then show ?thesis using lt by simp
    next
      case 2
      then have "vs ! k < vs ! j" using assms by (simp add: sorted_wrt_iff_nth_less)
      then show ?thesis using lt by simp
    qed
  qed
qed

lemma group_slices:
  fixes f :: "'k \<Rightarrow> 'b::linorder"
  assumes inj: "inj f" and srt: "sorted (map (\<lambda>x. f (g x)) xs)"
    and us: "us = sort_key f (remdups (map g xs))"
    and starts: "starts = map (first_index (map g xs)) us"
    and ends: "ends = tl starts @ [length xs]"
    and k: "k < length us"
  shows "take (ends ! k - starts ! k) (drop (starts ! k) xs) = filter (\<lambda>x. g x = us ! k) xs"
proof -
  let ?h = "\<lambda>x. f (g x)"
  let ?v = "f (us ! k)"
  have set_us: "set us = g ` set xs" by (simp add: us)
  have dist: "distinct us" by (simp add: us)
  have "sorted (map f us)" by (simp add: us)
  moreover have "distinct (map f us)"
    using dist inj by (simp add: distinct_map inj_on_def inj_def)
  ultimately have strict: "sorted_wrt (<) (map f us)" by (simp add: strict_sorted_iff)
  have len: "length starts = length us" by (simp add: starts)
  have uk: "us ! k \<in> g ` set xs" using k set_us nth_mem by blast
  have st: "starts ! k = length (filter (\<lambda>x. ?h x < ?v) xs)"
    using k first_index_sorted [OF inj srt uk] by (simp add: starts)
  have en: "ends ! k = length (filter (\<lambda>x. ?h x \<le> ?v) xs)"
  proof (cases "Suc k < length us")
    case True
    have uk': "us ! Suc k \<in> g ` set xs" using True set_us nth_mem by blast
    have "k < length starts - 1" using True len by simp
    then have "ends ! k = starts ! Suc k"
      by (simp add: ends nth_append nth_tl)
    also have "\<dots> = length (filter (\<lambda>x. ?h x < f (us ! Suc k)) xs)"
      using True first_index_sorted [OF inj srt uk'] by (simp add: starts)
    also have "filter (\<lambda>x. ?h x < f (us ! Suc k)) xs = filter (\<lambda>x. ?h x \<le> ?v) xs"
    proof (rule filter_cong [OF refl])
      fix x assume "x \<in> set xs"
      then have "g x \<in> set us" using set_us by simp
      then obtain j where j: "j < length us" "us ! j = g x" by (auto simp: in_set_conv_nth)
      have "?h x < f (us ! Suc k) \<longleftrightarrow> j < Suc k"
        using strict_index_mono [OF strict, of j "Suc k"] j True by simp
      moreover have "?h x < ?v \<longleftrightarrow> j < k"
        using strict_index_mono [OF strict, of j k] j k by simp
      moreover have "?h x = ?v \<longleftrightarrow> j = k"
        using j k dist inj by (metis injD nth_eq_iff_index_eq)
      ultimately show "?h x < f (us ! Suc k) \<longleftrightarrow> ?h x \<le> ?v"
        by (auto simp: le_less)
    qed
    finally show ?thesis .
  next
    case False
    then have last: "Suc k = length us" using k by simp
    have "k = length (tl starts)" using last len by simp
    then have "ends ! k = length xs"
      by (simp add: ends nth_append)
    moreover have "filter (\<lambda>x. ?h x \<le> ?v) xs = xs"
    proof -
      have "\<forall>x \<in> set xs. ?h x \<le> ?v"
      proof
        fix x assume "x \<in> set xs"
        then have "g x \<in> set us" using set_us by simp
        then obtain j where j: "j < length us" "us ! j = g x" by (auto simp: in_set_conv_nth)
        have "j \<le> k" using j last by simp
        then have "j = k \<or> j < k" by linarith
        then show "?h x \<le> ?v"
          using strict_index_mono [OF strict, of j k] j k by auto
      qed
      then show ?thesis by (simp add: filter_id_conv)
    qed
    ultimately show ?thesis by simp
  qed
  have "take (ends ! k - starts ! k) (drop (starts ! k) xs) = filter (\<lambda>x. ?h x = ?v) xs"
    unfolding st en by (rule take_drop_run [OF srt])
  moreover have "filter (\<lambda>x. ?h x = ?v) xs = filter (\<lambda>x. g x = us ! k) xs"
    using inj by (auto simp: inj_def intro: filter_cong)
  ultimately show ?thesis by simp
qed

section \<open>The groups of the downsampler\<close>

lemma argsort_ok_stable: "argsort_ok numpy_stable"
  by (auto simp: argsort_ok_def numpy_stable_def argsort_stable_def)

lemma first_index_less: "x \<in> set xs \<Longrightarrow> first_index xs x < length xs"
  unfolding first_index_def by (induction xs) auto

lemma nth_first_index: "x \<in> set xs \<Longrightarrow> xs ! first_index xs x = x"
  unfolding first_index_def by (induction xs) auto

lemma before_first_index: "j < first_index xs x \<Longrightarrow> xs ! j \<noteq> x"
  unfolding first_index_def
proof (induction xs arbitrary: j)
  case Nil
  then show ?case by simp
next
  case (Cons y ys)
  then show ?case by (cases j) (auto split: if_splits)
qed

lemma fold_min_Min: "ds \<noteq> [] \<Longrightarrow> fold min (tl ds) (hd ds) = Min (set ds)"
  by (cases ds) (simp_all add: Min.set_eq_fold [symmetric] del: set_simps)

lemma argmin_less: "ds \<noteq> [] \<Longrightarrow> argmin ds < length ds"
  unfolding argmin_def by (simp add: fold_min_Min first_index_less)

lemma argmin_least: "ds \<noteq> [] \<Longrightarrow> d \<in> set ds \<Longrightarrow> ds ! argmin ds \<le> d"
  unfolding argmin_def by (simp add: fold_min_Min nth_first_index)

lemma argmin_first: "ds \<noteq> [] \<Longrightarrow> j < argmin ds \<Longrightarrow> ds ! argmin ds < ds ! j"
proof -
  assume ne: "ds \<noteq> []" and j: "j < argmin ds"
  have lt: "j < length ds" using argmin_less [OF ne] j by simp
  have "ds ! j \<noteq> Min (set ds)"
    using j before_first_index [of j ds "Min (set ds)"] by (simp add: argmin_def fold_min_Min ne)
  moreover have "ds ! argmin ds = Min (set ds)"
    by (simp add: argmin_def fold_min_Min ne nth_first_index)
  moreover have "Min (set ds) \<le> ds ! j" using lt by simp
  ultimately show ?thesis by simp
qed

lemma select_in_group_choice:
  "select_in_group np points si (s, e) = group_choice np points (take (e - s) (drop s si))"
  by (simp add: select_in_group_def group_choice_def computed_dist_def [abs_def] Let_def comp_def)

lemma group_choice_mem: "members \<noteq> [] \<Longrightarrow> group_choice np points members \<in> set members"
proof -
  assume ne: "members \<noteq> []"
  let ?ds = "map (computed_dist np points members) members"
  have "?ds \<noteq> []" using ne by simp
  then have "argmin ?ds < length ?ds" by (rule argmin_less)
  then have "argmin ?ds < length members" by simp
  then show ?thesis unfolding group_choice_def by (rule nth_mem)
qed

lemma inj_sint: "inj (sint :: 'a::len word \<Rightarrow> int)"
  by simp

lemma selected_indices_groups:
  fixes np :: "'a numpy_scheme" and points :: "point list" and v :: real
  assumes ok: "argsort_ok np"
  defines "keys \<equiv> voxel_keys np points v"
  defines "si \<equiv> argsort np keys"
  shows "selected_indices np points v =
         map (\<lambda>u. group_choice np points (filter (\<lambda>i. keys ! i = u) si))
             (sort_key sint (remdups (map (\<lambda>i. keys ! i) si)))"
proof -
  define us where "us = sort_key sint (remdups (map (\<lambda>i. keys ! i) si))"
  define starts where "starts = map (first_index (map (\<lambda>i. keys ! i) si)) us"
  define ends where "ends = tl starts @ [length si]"
  have srt: "sorted (map (\<lambda>i. sint (keys ! i)) si)"
    using ok unfolding argsort_ok_def si_def by blast
  have sl: "take (ends ! k - starts ! k) (drop (starts ! k) si) = filter (\<lambda>i. keys ! i = us ! k) si"
    if "k < length us" for k
    by (rule group_slices [OF inj_sint srt us_def starts_def ends_def that])
  have len: "length starts = length us" "length us \<le> length ends"
    by (simp_all add: starts_def ends_def)
  have "map (select_in_group np points si) (zip starts ends) =
        map (\<lambda>u. group_choice np points (filter (\<lambda>i. keys ! i = u) si)) us"
  proof (rule nth_equalityI)
    show "length (map (select_in_group np points si) (zip starts ends)) =
          length (map (\<lambda>u. group_choice np points (filter (\<lambda>i. keys ! i = u) si)) us)"
      using len by simp
  next
    fix k assume "k < length (map (select_in_group np points si) (zip starts ends))"
    then have k: "k < length us" using len by simp
    then have "zip starts ends ! k = (starts ! k, ends ! k)"
      using len by (intro nth_zip) simp_all
    moreover have "k < length (zip starts ends)" using k len by simp
    ultimately have "map (select_in_group np points si) (zip starts ends) ! k =
          select_in_group np points si (starts ! k, ends ! k)"
      by simp
    also have "\<dots> = group_choice np points (filter (\<lambda>i. keys ! i = us ! k) si)"
      using sl [OF k] by (simp add: select_in_group_choice)
    finally show "map (select_in_group np points si) (zip starts ends) ! k =
          map (\<lambda>u. group_choice np points (filter (\<lambda>i. keys ! i = u) si)) us ! k"
      using k by simp
  qed
  moreover have "selected_indices np points v = map (select_in_group np points si) (zip starts ends)"
    unfolding selected_indices_def unique_index_def Let_def snd_conv length_map
      starts_def ends_def us_def si_def keys_def ..
  ultimately show ?thesis
    unfolding us_def by simp
qed

lemma length_voxel_keys: "length (voxel_keys np points v) = length points"
  by (simp add: voxel_keys_def Let_def)

lemma argsort_set: "argsort_ok np \<Longrightarrow> set (argsort np ks) = {..<length ks}"
  unfolding argsort_ok_def by blast

lemma argsort_distinct: "argsort_ok np \<Longrightarrow> distinct (argsort np ks)"
  unfolding argsort_ok_def by blast

lemma selected_in_range:
  assumes ok: "argsort_ok np" and i: "i \<in> set (selected_indices np points v)"
  shows "i < length points"
proof -
  define keys where "keys = voxel_keys np points v"
  define si where "si = argsort np keys"
  from i obtain u where u: "u \<in> set (map (\<lambda>i. keys ! i) si)"
    and iu: "i = group_choice np points (filter (\<lambda>i. keys ! i = u) si)"
    unfolding selected_indices_groups [OF ok] keys_def si_def by auto
  from u have "filter (\<lambda>i. keys ! i = u) si \<noteq> []"
    by (auto simp: filter_empty_conv)
  then have "i \<in> set (filter (\<lambda>i. keys ! i = u) si)"
    unfolding iu by (rule group_choice_mem)
  then have "i \<in> set si" by simp
  then show ?thesis
    using argsort_set [OF ok, of keys] by (simp add: si_def keys_def length_voxel_keys)
qed

text \<open>\<^verbatim>\<open>downsample_to_target\<close> with a target count given.\<close>

lemma to_target_given_count:
  "downsample_to_target np points colors (Some t) tsb =
     (if int (length points) \<le> t then Inr (points, colors)
      else (case find_voxel_size_for_target np points t (5 / 100) of
              Inl e \<Rightarrow> Inl e
            | Inr voxel_size \<Rightarrow>
                (case downsample_voxel_grid_nearest np points colors voxel_size of
                   Inl e \<Rightarrow> Inl e
                 | Inr (pts, cols, _) \<Rightarrow> Inr (pts, cols))))"
  by (simp add: downsample_to_target_def)

text \<open>\<^verbatim>\<open>downsample_to_target\<close> with a byte budget only.\<close>

lemma to_target_given_bytes:
  "b \<noteq> 0 \<Longrightarrow> downsample_to_target np points colors None (Some b) =
     (case bytes_to_count b of
        Inl e \<Rightarrow> Inl e
      | Inr t \<Rightarrow> downsample_to_target np points colors (Some t) (Some b))"
  by (simp add: downsample_to_target_def split: sum.splits)

subsection \<open>The members of one group\<close>

lemma first_index_nth_distinct:
  assumes "distinct xs" "a < length xs"
  shows "first_index xs (xs ! a) = a"
proof -
  have m: "xs ! a \<in> set xs" using assms by simp
  have "first_index xs (xs ! a) < length xs" by (rule first_index_less [OF m])
  moreover have "xs ! first_index xs (xs ! a) = xs ! a" by (rule nth_first_index [OF m])
  ultimately show ?thesis using assms by (simp add: nth_eq_iff_index_eq)
qed

lemma sorted_keys_unique:
  assumes "set xs = set (ys :: 'a::len word list)"
  shows "sort_key sint (remdups xs) = sort_key sint (remdups ys)"
proof -
  let ?a = "sort_key sint (remdups xs)" and ?b = "sort_key sint (remdups ys)"
  have d: "distinct (map sint ?a)" "distinct (map sint ?b)"
    by (auto simp: distinct_map inj_on_def intro: signed_word_eqI)
  have "map sint ?a = map sint ?b"
  proof (rule sorted_distinct_set_unique)
    show "set (map sint ?a) = set (map sint ?b)" using assms by simp
  qed (use d in simp_all)
  then show ?thesis by (simp add: inj_map_eq_map)
qed

lemma occupied_keys_sorted_indices:
  assumes ok: "argsort_ok np"
  shows "sort_key sint (remdups (map (\<lambda>i. voxel_keys np points v ! i)
           (argsort np (voxel_keys np points v)))) = occupied_keys np points v"
proof -
  let ?keys = "voxel_keys np points v"
  have "set (map (\<lambda>i. ?keys ! i) (argsort np ?keys)) = (\<lambda>i. ?keys ! i) ` {..<length ?keys}"
    by (simp add: argsort_set [OF ok])
  also have "\<dots> = set ?keys"
    by (simp add: set_conv_nth image_def lessThan_def Bex_def conj_commute) 
  finally have "set (map (\<lambda>i. ?keys ! i) (argsort np ?keys)) = set ?keys" .
  then show ?thesis unfolding occupied_keys_def by (rule sorted_keys_unique)
qed

lemma selected_indices_members:
  assumes ok: "argsort_ok np"
  shows "selected_indices np points v =
     map (\<lambda>u. group_choice np points (voxel_members np points v u)) (occupied_keys np points v)"
  unfolding selected_indices_groups [OF ok] occupied_keys_sorted_indices [OF ok]
    voxel_members_def ..

lemma set_voxel_members:
  assumes ok: "argsort_ok np"
  shows "set (voxel_members np points v u) =
         {i. i < length points \<and> voxel_keys np points v ! i = u}"
  using argsort_set [OF ok, of "voxel_keys np points v"]
  by (auto simp: voxel_members_def length_voxel_keys)

lemma distinct_voxel_members:
  "argsort_ok np \<Longrightarrow> distinct (voxel_members np points v u)"
  by (simp add: voxel_members_def argsort_distinct)

lemma voxel_members_nonempty:
  assumes ok: "argsort_ok np" and u: "u \<in> set (occupied_keys np points v)"
  shows "voxel_members np points v u \<noteq> []"
proof -
  from u have "u \<in> set (voxel_keys np points v)" by (simp add: occupied_keys_def)
  then obtain i where "i < length points" "voxel_keys np points v ! i = u"
    by (auto simp: in_set_conv_nth length_voxel_keys)
  then have "i \<in> set (voxel_members np points v u)"
    by (simp add: set_voxel_members [OF ok])
  then show ?thesis by auto
qed

lemma voxel_members_stable:
  assumes "argsort np = argsort_stable"
  shows "sorted (voxel_members np points v u)"
proof -
  let ?keys = "voxel_keys np points v"
  have eq: "(x = u) = (sint x = sint u)" for x
    by (auto intro: signed_word_eqI)
  have "voxel_members np points v u =
        filter (\<lambda>i. sint (?keys ! i) = sint u) (sort_key (\<lambda>i. sint (?keys ! i)) [0..<length ?keys])"
    by (simp add: voxel_members_def assms argsort_stable_def eq)
  also have "\<dots> = filter (\<lambda>i. sint (?keys ! i) = sint u) [0..<length ?keys]"
    by (rule sort_key_stable)
  finally show ?thesis by (simp add: sorted_wrt_filter)
qed

lemma group_choice_nearest:
  assumes ne: "members \<noteq> []" and j: "j \<in> set members"
  shows "computed_dist np points members (group_choice np points members)
           \<le> computed_dist np points members j"
proof -
  let ?ds = "map (computed_dist np points members) members"
  have ds: "?ds \<noteq> []" using ne by simp
  have gc: "group_choice np points members = members ! argmin ?ds"
    by (simp add: group_choice_def)
  have a: "argmin ?ds < length members" using argmin_less [OF ds] by simp
  have "?ds ! argmin ?ds \<le> computed_dist np points members j"
    by (rule argmin_least [OF ds]) (use j in simp)
  then show ?thesis using a by (simp add: gc)
qed

lemma group_choice_first:
  assumes ne: "members \<noteq> []" and dist: "distinct members" and j: "j \<in> set members"
    and tie: "computed_dist np points members j
                = computed_dist np points members (group_choice np points members)"
  shows "first_index members (group_choice np points members) \<le> first_index members j"
proof -
  let ?ds = "map (computed_dist np points members) members"
  have ds: "?ds \<noteq> []" using ne by simp
  have gc: "group_choice np points members = members ! argmin ?ds"
    by (simp add: group_choice_def)
  have a: "argmin ?ds < length members" using argmin_less [OF ds] by simp
  have fa: "first_index members (group_choice np points members) = argmin ?ds"
    unfolding gc by (rule first_index_nth_distinct [OF dist a])
  let ?b = "first_index members j"
  have b: "?b < length members" by (rule first_index_less [OF j])
  have mb: "members ! ?b = j" by (rule nth_first_index [OF j])
  show ?thesis
  proof (rule ccontr)
    assume "\<not> ?thesis"
    then have lt: "?b < argmin ?ds" using fa by simp
    have "?ds ! argmin ?ds < ?ds ! ?b" by (rule argmin_first [OF ds lt])
    then have "computed_dist np points members (group_choice np points members)
                 < computed_dist np points members j"
      using a b mb by (simp add: gc)
    then show False using tie by simp
  qed
qed

lemma first_index_sorted_le:
  assumes "sorted (xs :: nat list)" "a \<in> set xs" "b \<in> set xs"
    "first_index xs a \<le> first_index xs b"
  shows "a \<le> b"
proof -
  have "xs ! first_index xs a \<le> xs ! first_index xs b"
    using assms first_index_less [of b xs] by (intro sorted_nth_mono) simp_all
  then show ?thesis using assms by (simp add: nth_first_index)
qed

section \<open>Evaluation on concrete inputs\<close>

lemmas ds_defs = downsample_voxel_grid_nearest_def selected_indices_def select_in_group_def
  voxel_keys_def grid_index_def floor_div_int64_def cells_min_def cells_max_def cell_sub_def
  min64_def max64_def unique_index_def first_index_def argmin_def mean_axis0_def subtract_def linalg_norm_def
  add_reduce_def np_add_def np_subtract_def np_multiply_def np_true_divide_def np_sqrt_def
  numpy_stable_def argsort_stable_def Let_def

lemma search_numeral:
  "search np points target tol (numeral k) vmin vmax =
     (let vmid = (vmin + vmax) / 2;
          count = int (occupied np points vmid)
      in if target = 0 then Inl ZeroDivisionError
         else if \<bar>real_of_int (count - target)\<bar> / real_of_int target \<le> tol then Inr vmid
         else if pred_numeral k = 0 then Inr vmid
         else if count > target then search np points target tol (pred_numeral k) vmid vmax
         else search np points target tol (pred_numeral k) vmin vmid)"
  by (simp add: numeral_eq_Suc)

lemmas fv_defs = find_voxel_size_for_target_def points_max_def points_min_def max_real_def
  min_real_def sub3_def norm3_def search_numeral occupied_def grid_index_def
  floor_div_int64_def Let_def


lemma argsort_numpy_stable: "argsort numpy_stable = argsort_stable"
  by (simp add: numpy_stable_def)

lemma float_dtype_numpy_stable: "float_dtype numpy_stable = float32"
  by (simp add: numpy_stable_def)

lemmas float_defs = mean_axis0_def subtract_def linalg_norm_def add_reduce_def np_add_def
  np_subtract_def np_multiply_def np_true_divide_def np_sqrt_def float_dtype_numpy_stable

lemma example_voxel_size:
  "find_voxel_size_for_target numpy_stable [(0, 0, 0), (2, 0, 0), (10, 0, 0)] 1 (5 / 100)
     = Inr (5 - 1 / 2 ^ 48)"
  by (simp add: fv_defs)

lemma example_downsample:
  "downsample_voxel_grid_nearest numpy_stable
     [(0, 0, 0), (2, 0, 0), (10, 0, 0)] [(1, 2, 3), (4, 5, 6), (7, 8, 9)] (5 - 1 / 2 ^ 48)
   = Inr ([(0, 0, 0), (10, 0, 0)], [(1, 2, 3), (7, 8, 9)], [0, 2])"
  by (simp add: ds_defs upt_rec)

lemma example_to_target:
  "downsample_to_target numpy_stable
     [(0, 0, 0), (2, 0, 0), (10, 0, 0)] [(1, 2, 3), (4, 5, 6), (7, 8, 9)] (Some 1) None
   = Inr ([(0, 0, 0), (10, 0, 0)], [(1, 2, 3), (7, 8, 9)])"
  using example_voxel_size example_downsample by (simp add: downsample_to_target_def)

section \<open>Point identity\<close>

text \<open>
  C1. Every point that the downsampler returns is one point of the input: for a non-empty
  point set \<^verbatim>\<open>downsample_voxel_grid_nearest\<close> returns, at any voxel size, arrays whose
  k-th position and k-th color are the position and the color of the input at one and the
  same index \<^verbatim>\<open>selected_indices[k]\<close>, copied and not computed; and so is every point
  that \<^verbatim>\<open>downsample_to_target\<close> returns.
\<close>

theorem point_identity:
  assumes ok: "argsort_ok np" and len: "length colors = length points"
  shows "(points \<noteq> [] \<longrightarrow>
           (\<exists>pts cols sel.
              downsample_voxel_grid_nearest np points colors v = Inr (pts, cols, sel) \<and>
              length pts = length sel \<and> length cols = length sel \<and>
              (\<forall>k < length sel. sel ! k < length points \<and>
                  pts ! k = points ! (sel ! k) \<and> cols ! k = colors ! (sel ! k)))) \<and>
         (downsample_to_target np points colors target_count target_size_bytes = Inr (pts', cols')
           \<longrightarrow> length cols' = length pts' \<and>
               (\<forall>k < length pts'. \<exists>i < length points.
                   pts' ! k = points ! i \<and> cols' ! k = colors ! i))"
proof -
  let ?sel = "selected_indices np points v"
  have rng: "\<forall>i \<in> set (selected_indices np points w). i < length points" for w
    using selected_in_range [OF ok] by blast
  have A: "downsample_voxel_grid_nearest np points colors w =
            Inr (map (\<lambda>i. points ! i) (selected_indices np points w),
                 map (\<lambda>i. colors ! i) (selected_indices np points w),
                 selected_indices np points w)" if "points \<noteq> []" for w
    using that rng [of w] len by (auto simp: downsample_voxel_grid_nearest_def Let_def)
  have first: "points \<noteq> [] \<longrightarrow>
           (\<exists>pts cols sel.
              downsample_voxel_grid_nearest np points colors v = Inr (pts, cols, sel) \<and>
              length pts = length sel \<and> length cols = length sel \<and>
              (\<forall>k < length sel. sel ! k < length points \<and>
                  pts ! k = points ! (sel ! k) \<and> cols ! k = colors ! (sel ! k)))"
    using A [of v] rng [of v] by auto
  have second: "length cols' = length pts' \<and>
               (\<forall>k < length pts'. \<exists>i < length points.
                   pts' ! k = points ! i \<and> cols' ! k = colors ! i)"
    if run: "downsample_to_target np points colors target_count target_size_bytes = Inr (pts', cols')"
  proof -
    have "\<exists>t tsb. downsample_to_target np points colors (Some t) tsb = Inr (pts', cols')"
    proof (cases target_count)
      case (Some t)
      then show ?thesis using run by blast
    next
      case None
      show ?thesis
      proof (cases "target_size_bytes = None \<or> target_size_bytes = Some 0")
        case True
        then show ?thesis using run None by (auto simp: downsample_to_target_def)
      next
        case False
        then obtain b where b: "target_size_bytes = Some b" "b \<noteq> 0" by auto
        show ?thesis
          using run unfolding None b(1) to_target_given_bytes [OF b(2)]
          by (cases "bytes_to_count b") auto
      qed
    qed
    then obtain t tsb
      where run': "downsample_to_target np points colors (Some t) tsb = Inr (pts', cols')"
      by blast
    show ?thesis
    proof (cases "int (length points) \<le> t")
      case True
      then have "pts' = points" "cols' = colors"
        using run' by (simp_all add: to_target_given_count)
      then show ?thesis using len by auto
    next
      case False
      then obtain w sel where "find_voxel_size_for_target np points t (5 / 100) = Inr w"
        and d: "downsample_voxel_grid_nearest np points colors w = Inr (pts', cols', sel)"
        using run' unfolding to_target_given_count
        by (auto split: sum.splits)
      from d have ne: "points \<noteq> []"
        by (auto simp: downsample_voxel_grid_nearest_def)
      from d A [OF ne, of w]
      have "pts' = map (\<lambda>i. points ! i) (selected_indices np points w)"
           "cols' = map (\<lambda>i. colors ! i) (selected_indices np points w)"
        by auto
      then show ?thesis using rng [of w] by auto
    qed
  qed
  from first second show ?thesis by blast
qed

theorem point_identity_witness:
  "argsort_ok numpy_stable \<and>
   length [(1, 2, 3), (4, 5, 6), (7, 8, 9) :: color] = length [(0, 0, 0), (2, 0, 0), (10, 0, 0) :: point] \<and>
   [(0, 0, 0), (2, 0, 0), (10, 0, 0) :: point] \<noteq> [] \<and>
   downsample_to_target numpy_stable
     [(0, 0, 0), (2, 0, 0), (10, 0, 0)] [(1, 2, 3), (4, 5, 6), (7, 8, 9)] (Some 1) None
     = Inr ([(0, 0, 0), (10, 0, 0)], [(1, 2, 3), (7, 8, 9)]) \<and>
   (\<exists>pts cols sel.
      downsample_voxel_grid_nearest numpy_stable
        [(0, 0, 0), (2, 0, 0), (10, 0, 0)] [(1, 2, 3), (4, 5, 6), (7, 8, 9)] 4 = Inr (pts, cols, sel) \<and>
      length pts = length sel \<and> length cols = length sel \<and>
      (\<forall>k < length sel. sel ! k < length [(0, 0, 0), (2, 0, 0), (10, 0, 0) :: point] \<and>
          pts ! k = [(0, 0, 0), (2, 0, 0), (10, 0, 0)] ! (sel ! k) \<and>
          cols ! k = [(1, 2, 3), (4, 5, 6), (7, 8, 9)] ! (sel ! k))) \<and>
   (\<exists>i < length [(0, 0, 0), (2, 0, 0), (10, 0, 0) :: point].
      [(0, 0, 0), (10, 0, 0) :: point] ! 0 = [(0, 0, 0), (2, 0, 0), (10, 0, 0)] ! i \<and>
      [(1, 2, 3), (7, 8, 9) :: color] ! 0 = [(1, 2, 3), (4, 5, 6), (7, 8, 9)] ! i) \<and>
   (\<exists>i < length [(0, 0, 0), (2, 0, 0), (10, 0, 0) :: point].
      [(0, 0, 0), (10, 0, 0) :: point] ! 1 = [(0, 0, 0), (2, 0, 0), (10, 0, 0)] ! i \<and>
      [(1, 2, 3), (7, 8, 9) :: color] ! 1 = [(1, 2, 3), (4, 5, 6), (7, 8, 9)] ! i)"
proof -
  have h1: "argsort_ok numpy_stable" by (rule argsort_ok_stable)
  have h2: "length [(1, 2, 3), (4, 5, 6), (7, 8, 9) :: color]
      = length [(0, 0, 0), (2, 0, 0), (10, 0, 0) :: point]" by simp
  have h3: "[(0, 0, 0), (2, 0, 0), (10, 0, 0) :: point] \<noteq> []" by simp
  have k: "0 < length [(0, 0, 0), (10, 0, 0) :: point]" "1 < length [(0, 0, 0), (10, 0, 0) :: point]"
    by simp_all
  note T = point_identity [OF h1 h2, of 4 "Some 1" None
      "[(0, 0, 0), (10, 0, 0)]" "[(1, 2, 3), (7, 8, 9)]"]
  from T h1 h2 h3 k example_to_target show ?thesis by blast
qed

section \<open>No-op below the target\<close>

text \<open>
  C8. For a point set of N points and a given \<^verbatim>\<open>target_count\<close> of at least N,
  \<^verbatim>\<open>downsample_to_target\<close> returns the two input arrays as they are (same length, same
  elements, same order), whatever \<^verbatim>\<open>target_size_bytes\<close> is, and raises nothing.
\<close>

theorem downsample_to_target_noop:
  "int (length points) \<le> t \<Longrightarrow>
   downsample_to_target np points colors (Some t) target_size_bytes = Inr (points, colors)"
  by (simp add: downsample_to_target_def)

theorem downsample_to_target_noop_witness:
  "int (length [(0, 0, 0), (1, 2, 3) :: point]) \<le> 2 \<and>
   downsample_to_target numpy_stable [(0, 0, 0), (1, 2, 3)] [(1, 2, 3), (4, 5, 6)] (Some 2) None
     = Inr ([(0, 0, 0), (1, 2, 3)], [(1, 2, 3), (4, 5, 6)])"
  using downsample_to_target_noop [of "[(0, 0, 0), (1, 2, 3)]" 2 numpy_stable
      "[(1, 2, 3), (4, 5, 6)]" None]
  by simp

section \<open>Decoding spherical-harmonics colors\<close>

lemma clip_range: "0 \<le> clip a 0 255 \<and> clip a 0 255 \<le> 255"
  by (simp add: clip_def)

lemma uint_astype_uint8:
  assumes "0 \<le> a" "a \<le> 255"
  shows "uint (astype_uint8 a) = \<lfloor>a\<rfloor>"
proof -
  have "0 \<le> \<lfloor>a\<rfloor>" using assms by simp
  moreover have "\<lfloor>a\<rfloor> \<le> 255" using assms by (simp add: floor_le_iff)
  ultimately have "\<lfloor>a\<rfloor> mod 256 = \<lfloor>a\<rfloor>" by simp
  then show ?thesis using assms by (simp add: astype_uint8_def uint_word_of_int take_bit_eq_mod)
qed

lemma uint_sh_channel: "uint (sh_channel np f) = \<lfloor>clip (sh_value np f) 0 255\<rfloor>"
  unfolding sh_channel_def using clip_range [of "sh_value np f"]
  by (intro uint_astype_uint8) simp_all

lemma sh_value_zero_float32: "sh_value numpy_stable 0 = 255 / 2"
  by (simp add: sh_value_def np_multiply_def np_add_def float_dtype_numpy_stable float32_dyadic)

lemma sh_value_zero_float64:
  "sh_value (numpy_stable\<lparr>float_dtype := float64\<rparr>) 0 = 255 / 2"
  by (simp add: sh_value_def np_multiply_def np_add_def float64_dyadic)

lemma sh_channel_zero:
  "sh_channel numpy_stable 0 = 127"
  "sh_channel (numpy_stable\<lparr>float_dtype := float64\<rparr>) 0 = 127"
  by (simp_all add: sh_channel_def sh_value_zero_float32 sh_value_zero_float64 astype_uint8_def
      clip_def)

text \<open>
  A coefficient for which rounding in \<^verbatim>\<open>float32\<close> matters: \<^verbatim>\<open>SH_C0\<close> becomes
  \<open>9465531 / 2\<^sup>2\<^sup>5\<close>, the product with \<open>132103 / 2\<^sup>1\<^sup>7\<close> is rounded to \<open>4769993 / 2\<^sup>2\<^sup>4\<close>,
  and the product with 255 to 200, where the exact value is just below 200.
\<close>

lemma sh_value_float32_rounds: "sh_value numpy_stable (132103 / 131072) = 200"
  by (simp add: sh_value_def np_multiply_def np_add_def float_dtype_numpy_stable SH_C0_def
      float32_dyadic float32_SH_C0 float32_sh_product float32_sh_scaled)

text \<open>
  C6, as the code has it. For a file that declares the coefficients, \<^verbatim>\<open>read_sog\<close> returns
  one color for every record, and each channel of it is the value
  \<^verbatim>\<open>(0.5 + SH_C0 * f_dc_i) * 255\<close>, computed in the floating-point arithmetic of the
  column and clamped to 0 and 255, with its fractional part discarded, not rounded: the
  largest integer not above the clamped value. The coefficients \<open>0.0\<close> decode to
  \<open>(127, 127, 127)\<close>, from a \<^verbatim>\<open>float32\<close> column and from a \<^verbatim>\<open>float64\<close> column.
\<close>

theorem sh_decode_truncates:
  assumes "f_dc v = Some fs" and "i < length fs"
  shows "length (snd (read_sog np v)) = length fs \<and>
    (case (fs ! i, snd (read_sog np v) ! i) of
       ((f0, f1, f2), (r, g, b)) \<Rightarrow>
         uint r = \<lfloor>clip (sh_value np f0) 0 255\<rfloor> \<and>
         uint g = \<lfloor>clip (sh_value np f1) 0 255\<rfloor> \<and>
         uint b = \<lfloor>clip (sh_value np f2) 0 255\<rfloor> \<and>
         real_of_int (uint r) \<le> clip (sh_value np f0) 0 255 \<and>
         clip (sh_value np f0) 0 255 < real_of_int (uint r) + 1 \<and>
         real_of_int (uint g) \<le> clip (sh_value np f1) 0 255 \<and>
         clip (sh_value np f1) 0 255 < real_of_int (uint g) + 1 \<and>
         real_of_int (uint b) \<le> clip (sh_value np f2) 0 255 \<and>
         clip (sh_value np f2) 0 255 < real_of_int (uint b) + 1) \<and>
    read_sog numpy_stable \<lparr>xyz = [(1, 2, 3)], f_dc = Some [(0, 0, 0)]\<rparr>
      = ([(1, 2, 3)], [(127, 127, 127)]) \<and>
    read_sog (numpy_stable\<lparr>float_dtype := float64\<rparr>) \<lparr>xyz = [(1, 2, 3)], f_dc = Some [(0, 0, 0)]\<rparr>
      = ([(1, 2, 3)], [(127, 127, 127)])"
proof -
  obtain f0 f1 f2 where f: "fs ! i = (f0, f1, f2)" by (cases "fs ! i") auto
  have cols: "snd (read_sog np v) =
      map (\<lambda>(f0, f1, f2). (sh_channel np f0, sh_channel np f1, sh_channel np f2)) fs"
    using assms(1) by (simp add: read_sog_def Let_def)
  have len: "length (snd (read_sog np v)) = length fs" by (simp add: cols)
  have nth: "snd (read_sog np v) ! i = (sh_channel np f0, sh_channel np f1, sh_channel np f2)"
    using assms(2) by (simp add: cols f)
  have fl: "real_of_int \<lfloor>x\<rfloor> \<le> x \<and> x < real_of_int \<lfloor>x\<rfloor> + 1" for x :: real
    by linarith
  have chan: "(case (fs ! i, snd (read_sog np v) ! i) of
       ((f0, f1, f2), (r, g, b)) \<Rightarrow>
         uint r = \<lfloor>clip (sh_value np f0) 0 255\<rfloor> \<and>
         uint g = \<lfloor>clip (sh_value np f1) 0 255\<rfloor> \<and>
         uint b = \<lfloor>clip (sh_value np f2) 0 255\<rfloor> \<and>
         real_of_int (uint r) \<le> clip (sh_value np f0) 0 255 \<and>
         clip (sh_value np f0) 0 255 < real_of_int (uint r) + 1 \<and>
         real_of_int (uint g) \<le> clip (sh_value np f1) 0 255 \<and>
         clip (sh_value np f1) 0 255 < real_of_int (uint g) + 1 \<and>
         real_of_int (uint b) \<le> clip (sh_value np f2) 0 255 \<and>
         clip (sh_value np f2) 0 255 < real_of_int (uint b) + 1)"
    unfolding f nth prod.case uint_sh_channel
    using fl [of "clip (sh_value np f0) 0 255"] fl [of "clip (sh_value np f1) 0 255"]
      fl [of "clip (sh_value np f2) 0 255"]
    by blast
  have z32: "read_sog numpy_stable \<lparr>xyz = [(1, 2, 3)], f_dc = Some [(0, 0, 0)]\<rparr>
      = ([(1, 2, 3)], [(127, 127, 127)])"
    by (simp add: read_sog_def sh_channel_zero)
  have z64: "read_sog (numpy_stable\<lparr>float_dtype := float64\<rparr>)
      \<lparr>xyz = [(1, 2, 3)], f_dc = Some [(0, 0, 0)]\<rparr> = ([(1, 2, 3)], [(127, 127, 127)])"
    by (simp add: read_sog_def sh_channel_zero)
  from len chan z32 z64 show ?thesis by blast
qed

theorem sh_decode_truncates_witness:
  "f_dc \<lparr>xyz = [(1, 2, 3)], f_dc = Some [(132103 / 131072, 0, - 2)]\<rparr>
     = Some [(132103 / 131072, 0, - 2)] \<and>
   0 < length [(132103 / 131072, 0, - 2) :: real \<times> real \<times> real] \<and>
   sh_value numpy_stable (132103 / 131072) = 200 \<and>
   sh_value numpy_stable 0 = 255 / 2 \<and>
   clip (sh_value numpy_stable (- 2)) 0 255 = 0 \<and>
   read_sog numpy_stable \<lparr>xyz = [(1, 2, 3)], f_dc = Some [(132103 / 131072, 0, - 2)]\<rparr>
     = ([(1, 2, 3)], [(200, 127, 0)]) \<and>
   uint (200 :: 8 word) = \<lfloor>clip (sh_value numpy_stable (132103 / 131072)) 0 255\<rfloor> \<and>
   uint (127 :: 8 word) = \<lfloor>clip (sh_value numpy_stable 0) 0 255\<rfloor> \<and>
   uint (0 :: 8 word) = \<lfloor>clip (sh_value numpy_stable (- 2)) 0 255\<rfloor>"
proof -
  let ?v = "\<lparr>xyz = [(1, 2, 3)], f_dc = Some [(132103 / 131072, 0, - 2)]\<rparr>"
  have h1: "f_dc ?v = Some [(132103 / 131072, 0, - 2)]" by simp
  have h2: "0 < length [(132103 / 131072, 0, - 2) :: real \<times> real \<times> real]" by simp
  have neg: "sh_value numpy_stable (- 2) = - (4290865 / 262144)"
    by (simp add: sh_value_def np_multiply_def np_add_def float_dtype_numpy_stable SH_C0_def
        float32_dyadic float32_SH_C0 float32_sh_negative)
  have c: "clip (sh_value numpy_stable (- 2)) 0 255 = 0" by (simp add: neg clip_def)
  have ch: "sh_channel numpy_stable (132103 / 131072) = 200" "sh_channel numpy_stable (- 2) = 0"
    using c by (simp_all add: sh_channel_def sh_value_float32_rounds astype_uint8_def clip_def)
  have r: "read_sog numpy_stable ?v = ([(1, 2, 3)], [(200, 127, 0)])"
    by (simp add: read_sog_def ch sh_channel_zero)
  note T = sh_decode_truncates [OF h1 h2, of numpy_stable]
  from T have "uint (200 :: 8 word) = \<lfloor>clip (sh_value numpy_stable (132103 / 131072)) 0 255\<rfloor> \<and>
      uint (127 :: 8 word) = \<lfloor>clip (sh_value numpy_stable 0) 0 255\<rfloor> \<and>
      uint (0 :: 8 word) = \<lfloor>clip (sh_value numpy_stable (- 2)) 0 255\<rfloor>"
    unfolding r by simp
  with h1 h2 sh_value_float32_rounds sh_value_zero_float32 c r show ?thesis by blast
qed

text \<open>
  C6, as the claim states it, fails at \<open>f_dc = 0.0\<close>: the formula with \<open>round\<close> gives
  128 and the code gives 127. And the formula with the fraction discarded, evaluated
  exactly, is not what the code computes either: at \<open>f_dc = 132103 / 2\<^sup>1\<^sup>7\<close> it gives 199,
  and the code, rounding every operation to \<^verbatim>\<open>float32\<close>, gives 200.
\<close>

theorem sh_decode_zero_not_128:
  "uint (sh_channel numpy_stable 0) = 127 \<and> spec_sh_channel 0 = 128 \<and>
   read_sog numpy_stable \<lparr>xyz = [(1, 2, 3)], f_dc = Some [(0, 0, 0)]\<rparr>
     \<noteq> ([(1, 2, 3)], [(128, 128, 128)]) \<and>
   uint (sh_channel numpy_stable (132103 / 131072)) = 200 \<and>
   exact_sh_channel (132103 / 131072) = 199"
proof -
  have a: "uint (sh_channel numpy_stable 0) = 127" by (simp add: sh_channel_zero)
  have b: "spec_sh_channel 0 = 128" by (simp add: spec_sh_channel_def round_def)
  have c: "read_sog numpy_stable \<lparr>xyz = [(1, 2, 3)], f_dc = Some [(0, 0, 0)]\<rparr>
     \<noteq> ([(1, 2, 3)], [(128, 128, 128)])"
    by (simp add: read_sog_def sh_channel_zero)
  have d: "uint (sh_channel numpy_stable (132103 / 131072)) = 200"
    by (simp add: sh_channel_def sh_value_float32_rounds astype_uint8_def clip_def)
  have e: "exact_sh_channel (132103 / 131072) = 199"
    by (simp add: exact_sh_channel_def clip_def)
  from a b c d e show ?thesis by blast
qed

section \<open>The layout of the uncompressed GLB\<close>

lemma length_tobytes: "length (tobytes rows) = 3 * length rows"
  unfolding tobytes_def by (induction rows) auto

lemma max_real_Max: "xs \<noteq> [] \<Longrightarrow> max_real xs = Max (set xs)"
  unfolding max_real_def by (cases xs) (simp_all add: Max.set_eq_fold [symmetric] del: set_simps)

lemma min_real_Min: "xs \<noteq> [] \<Longrightarrow> min_real xs = Min (set xs)"
  unfolding min_real_def by (cases xs) (simp_all add: Min.set_eq_fold [symmetric] del: set_simps)

lemma points_max_Max:
  "ps \<noteq> [] \<Longrightarrow> points_max ps =
     (Max (fst ` set ps), Max ((fst \<circ> snd) ` set ps), Max ((snd \<circ> snd) ` set ps))"
  by (simp add: points_max_def max_real_Max)

lemma points_min_Min:
  "ps \<noteq> [] \<Longrightarrow> points_min ps =
     (Min (fst ` set ps), Min ((fst \<circ> snd) ` set ps), Min ((snd \<circ> snd) ` set ps))"
  by (simp add: points_min_def min_real_Min)

text \<open>
  C9, as the code has it. For a point set of N points, N at least 1, with a color for every
  point, \<^verbatim>\<open>_create_glb\<close> raises nothing and writes to \<^verbatim>\<open>path\<close> the serialisation of a
  document that holds the positions and then the colors, each channel divided by 255 in
  \<^verbatim>\<open>float32\<close>, as \<^verbatim>\<open>float32\<close> triples in one blob; buffer view 0 is at byte offset 0 with
  byte length 12 N, buffer view 1 at byte offset 12 N with byte length 12 N, and the
  buffer has byte length 24 N, which is the length of the blob; the one primitive has mode
  0 (points) and the attributes \<^verbatim>\<open>POSITION\<close> (accessor 0) and \<^verbatim>\<open>COLOR_0\<close> (accessor 1);
  both accessors have count N, and the minimum and maximum of accessor 0 are the
  componentwise minimum and maximum over all points.
\<close>

theorem glb_layout:
  assumes ne: "points \<noteq> []" and len: "length colors = length points"
  shows "\<exists>g. create_glb w points colors path fs = (Inr (), fs(path \<mapsto> gltf_save w g)) \<and>
     glb_document points colors = Inr g \<and>
     binary_blob g =
       concat (map (\<lambda>(x, y, z). [x, y, z]) points) @
       concat (map (\<lambda>(r, g, b). [float32 (real (unat r) / 255), float32 (real (unat g) / 255),
                                   float32 (real (unat b) / 255)])
                 colors) \<and>
     bufferViews g =
       [\<lparr>bv_buffer = 0, bv_byteOffset = 0, bv_byteLength = 12 * length points\<rparr>,
        \<lparr>bv_buffer = 0, bv_byteOffset = 12 * length points, bv_byteLength = 12 * length points\<rparr>] \<and>
     buffers g = [24 * length points] \<and>
     len_bytes (binary_blob g) = 24 * length points \<and>
     meshes g = [ [\<lparr>attributes = [(''POSITION'', 0), (''COLOR_0'', 1)], mode = 0\<rparr>] ] \<and>
     map acc_bufferView (accessors g) = [0, 1] \<and>
     map acc_count (accessors g) = [length points, length points] \<and>
     map acc_componentType (accessors g) = [5126, 5126] \<and>
     map acc_type (accessors g) = [''VEC3'', ''VEC3''] \<and>
     acc_min (accessors g ! 0) =
       Some [Min (fst ` set points), Min ((fst \<circ> snd) ` set points),
             Min ((snd \<circ> snd) ` set points)] \<and>
     acc_max (accessors g ! 0) =
       Some [Max (fst ` set points), Max ((fst \<circ> snd) ` set points),
             Max ((snd \<circ> snd) ` set points)]"
proof -
  have col: "tobytes (colors_float colors) =
     concat (map (\<lambda>(r, g, b). [float32 (real (unat r) / 255), float32 (real (unat g) / 255),
                                 float32 (real (unat b) / 255)])
                 colors)"
    by (simp add: tobytes_def colors_float_def comp_def case_prod_unfold)
  have lc: "length (tobytes (colors_float colors)) = 3 * length points"
    by (simp add: length_tobytes colors_float_def len)
  have lcf: "length (colors_float colors) = length points"
    by (simp add: colors_float_def len)
  obtain g where g: "glb_document points colors = Inr g"
    using ne by (simp add: glb_document_def Let_def)
  have written: "create_glb w points colors path fs = (Inr (), fs(path \<mapsto> gltf_save w g))"
    by (simp add: create_glb_def g)
  have blob: "binary_blob g = tobytes points @ tobytes (colors_float colors)"
    using g ne by (auto simp: glb_document_def Let_def)
  have views: "bufferViews g =
       [\<lparr>bv_buffer = 0, bv_byteOffset = 0, bv_byteLength = 12 * length points\<rparr>,
        \<lparr>bv_buffer = 0, bv_byteOffset = 12 * length points, bv_byteLength = 12 * length points\<rparr>]"
    using g ne by (auto simp: glb_document_def Let_def len_bytes_def length_tobytes lcf)
  have bufs: "buffers g = [24 * length points]"
    using g ne by (auto simp: glb_document_def Let_def len_bytes_def length_tobytes lcf)
  have total: "len_bytes (binary_blob g) = 24 * length points"
    by (simp add: blob len_bytes_def length_tobytes lcf)
  have mesh: "meshes g = [ [\<lparr>attributes = [(''POSITION'', 0), (''COLOR_0'', 1)], mode = 0\<rparr>] ]"
    using g ne by (auto simp: glb_document_def Let_def)
  have acc: "accessors g =
       [\<lparr>acc_bufferView = 0, acc_componentType = 5126, acc_count = length points,
         acc_type = ''VEC3'', acc_max = Some (tolist (points_max points)),
         acc_min = Some (tolist (points_min points))\<rparr>,
        \<lparr>acc_bufferView = 1, acc_componentType = 5126, acc_count = length points,
         acc_type = ''VEC3'', acc_max = None, acc_min = None\<rparr>]"
    using g ne by (auto simp: glb_document_def Let_def)
  show ?thesis
  proof (intro exI [of _ g] conjI)
    show "create_glb w points colors path fs = (Inr (), fs(path \<mapsto> gltf_save w g))"
      by (rule written)
    show "glb_document points colors = Inr g" by (rule g)
    show "binary_blob g =
       concat (map (\<lambda>(x, y, z). [x, y, z]) points) @
       concat (map (\<lambda>(r, g, b). [float32 (real (unat r) / 255), float32 (real (unat g) / 255),
                                   float32 (real (unat b) / 255)])
                 colors)"
      unfolding blob col by (simp add: tobytes_def)
    show "bufferViews g =
       [\<lparr>bv_buffer = 0, bv_byteOffset = 0, bv_byteLength = 12 * length points\<rparr>,
        \<lparr>bv_buffer = 0, bv_byteOffset = 12 * length points, bv_byteLength = 12 * length points\<rparr>]"
      by (rule views)
    show "buffers g = [24 * length points]" by (rule bufs)
    show "len_bytes (binary_blob g) = 24 * length points" by (rule total)
    show "meshes g = [ [\<lparr>attributes = [(''POSITION'', 0), (''COLOR_0'', 1)], mode = 0\<rparr>] ]"
      by (rule mesh)
    show "map acc_bufferView (accessors g) = [0, 1]" by (simp add: acc)
    show "map acc_count (accessors g) = [length points, length points]" by (simp add: acc)
    show "map acc_componentType (accessors g) = [5126, 5126]" by (simp add: acc)
    show "map acc_type (accessors g) = [''VEC3'', ''VEC3'']" by (simp add: acc)
    show "acc_min (accessors g ! 0) =
       Some [Min (fst ` set points), Min ((fst \<circ> snd) ` set points),
             Min ((snd \<circ> snd) ` set points)]"
      by (simp add: acc points_min_Min [OF ne] tolist_def)
    show "acc_max (accessors g ! 0) =
       Some [Max (fst ` set points), Max ((fst \<circ> snd) ` set points),
             Max ((snd \<circ> snd) ` set points)]"
      by (simp add: acc points_max_Max [OF ne] tolist_def)
  qed
qed

theorem glb_layout_witness:
  "[(0, 0, 0), (1, 2, 3) :: point] \<noteq> [] \<and>
   length [(255, 0, 0), (0, 255, 51) :: color] = length [(0, 0, 0), (1, 2, 3) :: point] \<and>
   (\<exists>g. create_glb world_working [(0, 0, 0), (1, 2, 3)] [(255, 0, 0), (0, 255, 51)]
          ''tmp.glb'' Map.empty = (Inr (), [''tmp.glb'' \<mapsto> gltf_save world_working g]) \<and>
        glb_document [(0, 0, 0), (1, 2, 3)] [(255, 0, 0), (0, 255, 51)] = Inr g \<and>
        binary_blob g = [0, 0, 0, 1, 2, 3, 1, 0, 0, 0, 1, 13421773 / 67108864] \<and>
        bufferViews g =
          [\<lparr>bv_buffer = 0, bv_byteOffset = 0, bv_byteLength = 24\<rparr>,
           \<lparr>bv_buffer = 0, bv_byteOffset = 24, bv_byteLength = 24\<rparr>] \<and>
        buffers g = [48] \<and>
        len_bytes (binary_blob g) = 48 \<and>
        map acc_count (accessors g) = [2, 2] \<and>
        acc_min (accessors g ! 0) = Some [0, 0, 0] \<and>
        acc_max (accessors g ! 0) = Some [1, 2, 3])"
  using glb_layout [of "[(0, 0, 0), (1, 2, 3)]" "[(255, 0, 0), (0, 255, 51)]" world_working
      "''tmp.glb''" Map.empty]
  by (auto simp: float32_fifth)

text \<open>
  C9, as the claim states it, fails for the point set of no points: \<^verbatim>\<open>points.max(0)\<close> on
  an empty array raises \<^verbatim>\<open>ValueError\<close>, no document is built, and nothing is written. There
  is no GLB with both counts 0 and a buffer of byte length 0.
\<close>

theorem glb_empty_point_set_raises:
  "glb_document [] [] = Inl ValueError_zero_size \<and>
   create_glb world_working [] [] ''tmp.glb'' Map.empty = (Inl ValueError_zero_size, Map.empty)"
  by (simp add: glb_document_def create_glb_def)

section \<open>The temporary file of the Draco export\<close>

text \<open>
  When \<^verbatim>\<open>export_glb_with_draco\<close> returns a size, the temporary file is gone.
\<close>

lemma export_success_removes_tmp:
  assumes "export_glb_with_draco w points colors output fs = (Inr n, fs')"
  shows "fs' (temp_name w fs) = None"
  using assms
  by (auto simp: export_glb_with_draco_def Let_def
      split: prod.splits sum.splits completed.splits if_splits option.splits)

text \<open>
  C3. The temporary file is not removed on every exit path: \<^verbatim>\<open>unlink\<close> is a plain
  statement after \<^verbatim>\<open>subprocess.run\<close>, with no \<^verbatim>\<open>try\<close>/\<^verbatim>\<open>finally\<close> around it. With a
  transcoder that exits with code 1, the export of a one-point set raises
  \<^verbatim>\<open>CalledProcessError\<close> and the temporary GLB is still in the file system; when
  \<^verbatim>\<open>_create_glb\<close> raises (an empty point set), the empty temporary file is left as well.
\<close>

theorem export_failure_leaves_tmp:
  "export_glb_with_draco world_failing [(0, 0, 0)] [(255, 255, 255)] ''out.glb'' Map.empty
     = (Inl (CalledProcessError 1), [''/tmp/tmpab12.glb'' \<mapsto> [103, 108, 84, 70] ]) \<and>
   export_glb_with_draco world_working [] [] ''out.glb'' Map.empty
     = (Inl ValueError_zero_size, [''/tmp/tmpab12.glb'' \<mapsto> [] ]) \<and>
   export_glb_with_draco world_working [(0, 0, 0)] [(255, 255, 255)] ''out.glb'' Map.empty
     = (Inr 4, [''out.glb'' \<mapsto> [103, 108, 84, 70] ])"
  by (simp add: export_glb_with_draco_def create_glb_def glb_document_def world_failing_def
      world_working_def transcoder_fails_def transcoder_copies_def Let_def fun_upd_twist)

section \<open>The representative of a voxel\<close>

text \<open>
  C2, as the code has it. The output has one index for every distinct voxel key, in
  ascending key order. The index chosen for a key is a member of that key's group, no
  member of the group has a smaller computed distance, the \<^verbatim>\<open>distances\<close> entry that the
  loop computes in the floating-point arithmetic of the array (the rows of the group added
  one after the other, the sum divided by their number, the norm of the difference, every
  operation rounded), and among the members at equal minimum computed distance it is the
  one that comes first in \<^verbatim>\<open>sorted_indices\<close>, the order in which \<^verbatim>\<open>np.argsort\<close> has left
  the group. When the sort is stable that is the member that comes first in the input.
\<close>

theorem nearest_member_selected:
  assumes ok: "argsort_ok np"
  shows "length (selected_indices np points v) = length (occupied_keys np points v) \<and>
    (\<forall>k < length (occupied_keys np points v).
       (let members = voxel_members np points v (occupied_keys np points v ! k);
            s = selected_indices np points v ! k
        in set members =
             {i. i < length points \<and> voxel_keys np points v ! i = occupied_keys np points v ! k} \<and>
           s \<in> set members \<and>
           (\<forall>j \<in> set members.
              computed_dist np points members s \<le> computed_dist np points members j) \<and>
           (\<forall>j \<in> set members.
              computed_dist np points members j = computed_dist np points members s \<longrightarrow>
              first_index members s \<le> first_index members j) \<and>
           (argsort np = argsort_stable \<longrightarrow>
             (\<forall>j \<in> set members.
                computed_dist np points members j = computed_dist np points members s
                  \<longrightarrow> s \<le> j))))"
proof (intro conjI allI impI)
  show "length (selected_indices np points v) = length (occupied_keys np points v)"
    by (simp add: selected_indices_members [OF ok])
next
  fix k assume k: "k < length (occupied_keys np points v)"
  define u where "u = occupied_keys np points v ! k"
  define members where "members = voxel_members np points v u"
  define s where "s = selected_indices np points v ! k"
  have u: "u \<in> set (occupied_keys np points v)" using k by (simp add: u_def)
  have ne: "members \<noteq> []" unfolding members_def by (rule voxel_members_nonempty [OF ok u])
  have dist: "distinct members" unfolding members_def by (rule distinct_voxel_members [OF ok])
  have s: "s = group_choice np points members"
    using k by (simp add: s_def selected_indices_members [OF ok] members_def u_def)
  have mem: "s \<in> set members" unfolding s by (rule group_choice_mem [OF ne])
  have near: "\<forall>j \<in> set members.
      computed_dist np points members s \<le> computed_dist np points members j"
    unfolding s using group_choice_nearest [OF ne] by blast
  have first: "\<forall>j \<in> set members.
      computed_dist np points members j = computed_dist np points members s \<longrightarrow>
      first_index members s \<le> first_index members j"
    unfolding s using group_choice_first [OF ne dist] by blast
  have stable: "\<forall>j \<in> set members.
      computed_dist np points members j = computed_dist np points members s \<longrightarrow> s \<le> j"
    if st: "argsort np = argsort_stable"
  proof (intro ballI impI)
    fix j assume j: "j \<in> set members"
      and tie: "computed_dist np points members j = computed_dist np points members s"
    have srt: "sorted members" unfolding members_def by (rule voxel_members_stable [OF st])
    have fi: "first_index members s \<le> first_index members j" using first j tie by blast
    show "s \<le> j" by (rule first_index_sorted_le [OF srt mem j fi])
  qed
  have set: "set members = {i. i < length points \<and> voxel_keys np points v ! i = u}"
    unfolding members_def by (rule set_voxel_members [OF ok])
  show "let members = voxel_members np points v (occupied_keys np points v ! k);
            s = selected_indices np points v ! k
        in set members =
             {i. i < length points \<and> voxel_keys np points v ! i = occupied_keys np points v ! k} \<and>
           s \<in> set members \<and>
           (\<forall>j \<in> set members.
              computed_dist np points members s \<le> computed_dist np points members j) \<and>
           (\<forall>j \<in> set members.
              computed_dist np points members j = computed_dist np points members s \<longrightarrow>
              first_index members s \<le> first_index members j) \<and>
           (argsort np = argsort_stable \<longrightarrow>
             (\<forall>j \<in> set members.
                computed_dist np points members j = computed_dist np points members s
                  \<longrightarrow> s \<le> j))"
    unfolding Let_def u_def [symmetric] members_def [symmetric] s_def [symmetric]
    using set mem near first stable by blast
qed

lemma example_keys: "voxel_keys numpy_stable [(0, 0, 0), (2, 0, 0), (10, 0, 0)] 4 = [0, 0, 2]"
  by (simp add: voxel_keys_def grid_index_def floor_div_int64_def cells_min_def cells_max_def
      cell_sub_def min64_def max64_def Let_def)

theorem nearest_member_selected_witness:
  "argsort_ok numpy_stable \<and>
   0 < length (occupied_keys numpy_stable [(0, 0, 0), (2, 0, 0), (10, 0, 0)] 4) \<and>
   argsort numpy_stable = argsort_stable \<and>
   occupied_keys numpy_stable [(0, 0, 0), (2, 0, 0), (10, 0, 0)] 4 = [0, 2] \<and>
   voxel_members numpy_stable [(0, 0, 0), (2, 0, 0), (10, 0, 0)] 4 0 = [0, 1] \<and>
   selected_indices numpy_stable [(0, 0, 0), (2, 0, 0), (10, 0, 0)] 4 ! 0 = 0 \<and>
   computed_dist numpy_stable [(0, 0, 0), (2, 0, 0), (10, 0, 0)] [0, 1] 0 = 1 \<and>
   computed_dist numpy_stable [(0, 0, 0), (2, 0, 0), (10, 0, 0)] [0, 1] 1 = 1 \<and>
   set (voxel_members numpy_stable [(0, 0, 0), (2, 0, 0), (10, 0, 0)] 4 0) =
     {i. i < length [(0, 0, 0), (2, 0, 0), (10, 0, 0) :: point] \<and>
         voxel_keys numpy_stable [(0, 0, 0), (2, 0, 0), (10, 0, 0)] 4 ! i = 0}"
proof -
  have h1: "argsort_ok numpy_stable" by (rule argsort_ok_stable)
  have h2: "occupied_keys numpy_stable [(0, 0, 0), (2, 0, 0), (10, 0, 0)] 4 = [0, 2]"
    by (simp add: occupied_keys_def example_keys)
  have h3: "0 < length (occupied_keys numpy_stable [(0, 0, 0), (2, 0, 0), (10, 0, 0)] 4)"
    by (simp add: h2)
  have h4: "argsort numpy_stable = argsort_stable" by (simp add: numpy_stable_def)
  have m: "voxel_members numpy_stable [(0, 0, 0), (2, 0, 0), (10, 0, 0)] 4 0 = [0, 1]"
    by (simp add: voxel_members_def example_keys h4 argsort_stable_def upt_rec)
  have s: "selected_indices numpy_stable [(0, 0, 0), (2, 0, 0), (10, 0, 0)] 4 ! 0 = 0"
    by (simp add: selected_indices_def example_keys argsort_numpy_stable select_in_group_def
        unique_index_def first_index_def argmin_def float_defs argsort_stable_def Let_def
        upt_rec)
  have d: "computed_dist numpy_stable [(0, 0, 0), (2, 0, 0), (10, 0, 0)] [0, 1] 0 = 1"
      "computed_dist numpy_stable [(0, 0, 0), (2, 0, 0), (10, 0, 0)] [0, 1] 1 = 1"
    by (simp_all add: computed_dist_def float_defs)
  note T = nearest_member_selected [OF h1, of "[(0, 0, 0), (2, 0, 0), (10, 0, 0)]" 4]
  from T h3 have "set (voxel_members numpy_stable [(0, 0, 0), (2, 0, 0), (10, 0, 0)] 4
        (occupied_keys numpy_stable [(0, 0, 0), (2, 0, 0), (10, 0, 0)] 4 ! 0)) =
     {i. i < length [(0, 0, 0), (2, 0, 0), (10, 0, 0) :: point] \<and>
         voxel_keys numpy_stable [(0, 0, 0), (2, 0, 0), (10, 0, 0)] 4 ! i =
         occupied_keys numpy_stable [(0, 0, 0), (2, 0, 0), (10, 0, 0)] 4 ! 0}"
    unfolding Let_def by blast
  then have "set (voxel_members numpy_stable [(0, 0, 0), (2, 0, 0), (10, 0, 0)] 4 0) =
     {i. i < length [(0, 0, 0), (2, 0, 0), (10, 0, 0) :: point] \<and>
         voxel_keys numpy_stable [(0, 0, 0), (2, 0, 0), (10, 0, 0)] 4 ! i = 0}"
    by (simp add: h2)
  with h1 h2 h3 h4 m s d show ?thesis by blast
qed

text \<open>
  C2, as the claim states it, fails: the member chosen need not be the one nearest to the
  centroid. The three \<^verbatim>\<open>float32\<close> points below share the voxel of edge 100 that holds
  them. Their centroid is the second point, \<open>(16777198, 0, 0)\<close>, which is therefore at
  Euclidean distance 0 from it, the other two at distance 1. The loop adds the three rows
  in \<^verbatim>\<open>float32\<close>: \<open>16777197 + 16777198\<close> is rounded to \<open>33554396\<close>, that plus \<open>16777199\<close>
  to \<open>50331596\<close>, and the quotient by 3 to \<open>16777199\<close>, the third point. The computed
  distances are 2, 1 and 0, and the downsampler returns the third point, index 2. In
  whatever order \<^verbatim>\<open>np.argsort\<close> leaves the three members, the one chosen is the first or
  the third point, never the second.
\<close>

lemma rounding_keys:
  "voxel_keys numpy_stable [(16777197, 0, 0), (16777198, 0, 0), (16777199, 0, 0)] 100
     = [0, 0, 0]"
  by (simp add: voxel_keys_def grid_index_def floor_div_int64_def cells_min_def cells_max_def
      cell_sub_def min64_def max64_def Let_def)

lemma rounding_mean:
  "mean_axis0 numpy_stable [(16777197, 0, 0), (16777198, 0, 0), (16777199, 0, 0)]
     = (16777199, 0, 0)"
  by (simp add: mean_axis0_def add_reduce_def np_add_def np_true_divide_def
      float_dtype_numpy_stable float32_33554395 float32_dyadic float32_50331595
      float32_50331596_3)

lemma rounding_distances:
  "map (computed_dist numpy_stable [(16777197, 0, 0), (16777198, 0, 0), (16777199, 0, 0)]
          [0, 1, 2]) [0, 1, 2] = [2, 1, 0]"
  by (simp add: computed_dist_def rounding_mean subtract_def linalg_norm_def add_reduce_def
      np_add_def np_subtract_def np_multiply_def np_sqrt_def float_dtype_numpy_stable)

lemma rounding_mean_other:
  "mean_axis0 numpy_stable [(16777197, 0, 0), (16777199, 0, 0), (16777198, 0, 0)]
     = (16777197, 0, 0)"
  "mean_axis0 numpy_stable [(16777199, 0, 0), (16777197, 0, 0), (16777198, 0, 0)]
     = (16777197, 0, 0)"
  "mean_axis0 numpy_stable [(16777198, 0, 0), (16777199, 0, 0), (16777197, 0, 0)]
     = (16777197, 0, 0)"
  "mean_axis0 numpy_stable [(16777199, 0, 0), (16777198, 0, 0), (16777197, 0, 0)]
     = (16777197, 0, 0)"
  "mean_axis0 numpy_stable [(16777198, 0, 0), (16777197, 0, 0), (16777199, 0, 0)]
     = (16777199, 0, 0)"
  by (simp_all add: mean_axis0_def add_reduce_def np_add_def np_true_divide_def
      float_dtype_numpy_stable float32_33554395 float32_33554397 float32_dyadic
      float32_50331593 float32_50331594 float32_50331595 float32_50331592_3
      float32_50331596_3)

lemma rounding_any_order:
  "group_choice numpy_stable [(16777197, 0, 0), (16777198, 0, 0), (16777199, 0, 0)] [0, 1, 2] = 2"
  "group_choice numpy_stable [(16777197, 0, 0), (16777198, 0, 0), (16777199, 0, 0)] [1, 0, 2] = 2"
  "group_choice numpy_stable [(16777197, 0, 0), (16777198, 0, 0), (16777199, 0, 0)] [0, 2, 1] = 0"
  "group_choice numpy_stable [(16777197, 0, 0), (16777198, 0, 0), (16777199, 0, 0)] [2, 0, 1] = 0"
  "group_choice numpy_stable [(16777197, 0, 0), (16777198, 0, 0), (16777199, 0, 0)] [1, 2, 0] = 0"
  "group_choice numpy_stable [(16777197, 0, 0), (16777198, 0, 0), (16777199, 0, 0)] [2, 1, 0] = 0"
  by (simp_all add: group_choice_def computed_dist_def rounding_mean rounding_mean_other
      subtract_def linalg_norm_def add_reduce_def np_add_def np_subtract_def np_multiply_def
      np_sqrt_def float_dtype_numpy_stable argmin_def first_index_def)

theorem nearest_member_not_selected:
  "voxel_keys numpy_stable [(16777197, 0, 0), (16777198, 0, 0), (16777199, 0, 0)] 100
     = [0, 0, 0] \<and>
   voxel_members numpy_stable [(16777197, 0, 0), (16777198, 0, 0), (16777199, 0, 0)] 100 0
     = [0, 1, 2] \<and>
   mean3 [(16777197, 0, 0), (16777198, 0, 0), (16777199, 0, 0)] = (16777198, 0, 0) \<and>
   centroid_dist [(16777197, 0, 0), (16777198, 0, 0), (16777199, 0, 0)] [0, 1, 2] 0 = 1 \<and>
   centroid_dist [(16777197, 0, 0), (16777198, 0, 0), (16777199, 0, 0)] [0, 1, 2] 1 = 0 \<and>
   centroid_dist [(16777197, 0, 0), (16777198, 0, 0), (16777199, 0, 0)] [0, 1, 2] 2 = 1 \<and>
   mean_axis0 numpy_stable [(16777197, 0, 0), (16777198, 0, 0), (16777199, 0, 0)]
     = (16777199, 0, 0) \<and>
   map (computed_dist numpy_stable [(16777197, 0, 0), (16777198, 0, 0), (16777199, 0, 0)]
          [0, 1, 2]) [0, 1, 2] = [2, 1, 0] \<and>
   downsample_voxel_grid_nearest numpy_stable
     [(16777197, 0, 0), (16777198, 0, 0), (16777199, 0, 0)] [(1, 2, 3), (4, 5, 6), (7, 8, 9)] 100
     = Inr ([(16777199, 0, 0)], [(7, 8, 9)], [2]) \<and>
   group_choice numpy_stable [(16777197, 0, 0), (16777198, 0, 0), (16777199, 0, 0)] [0, 1, 2] \<noteq> 1 \<and>
   group_choice numpy_stable [(16777197, 0, 0), (16777198, 0, 0), (16777199, 0, 0)] [1, 0, 2] \<noteq> 1 \<and>
   group_choice numpy_stable [(16777197, 0, 0), (16777198, 0, 0), (16777199, 0, 0)] [0, 2, 1] \<noteq> 1 \<and>
   group_choice numpy_stable [(16777197, 0, 0), (16777198, 0, 0), (16777199, 0, 0)] [2, 0, 1] \<noteq> 1 \<and>
   group_choice numpy_stable [(16777197, 0, 0), (16777198, 0, 0), (16777199, 0, 0)] [1, 2, 0] \<noteq> 1 \<and>
   group_choice numpy_stable [(16777197, 0, 0), (16777198, 0, 0), (16777199, 0, 0)] [2, 1, 0] \<noteq> 1"
proof -
  have o: "group_choice numpy_stable [(16777197, 0, 0), (16777198, 0, 0), (16777199, 0, 0)] [0, 1, 2] \<noteq> 1"
      "group_choice numpy_stable [(16777197, 0, 0), (16777198, 0, 0), (16777199, 0, 0)] [1, 0, 2] \<noteq> 1"
      "group_choice numpy_stable [(16777197, 0, 0), (16777198, 0, 0), (16777199, 0, 0)] [0, 2, 1] \<noteq> 1"
      "group_choice numpy_stable [(16777197, 0, 0), (16777198, 0, 0), (16777199, 0, 0)] [2, 0, 1] \<noteq> 1"
      "group_choice numpy_stable [(16777197, 0, 0), (16777198, 0, 0), (16777199, 0, 0)] [1, 2, 0] \<noteq> 1"
      "group_choice numpy_stable [(16777197, 0, 0), (16777198, 0, 0), (16777199, 0, 0)] [2, 1, 0] \<noteq> 1"
    unfolding rounding_any_order by simp_all
  have m: "voxel_members numpy_stable
      [(16777197, 0, 0), (16777198, 0, 0), (16777199, 0, 0)] 100 0 = [0, 1, 2]"
    by (simp add: voxel_members_def rounding_keys argsort_numpy_stable argsort_stable_def
        upt_rec)
  have c: "mean3 [(16777197, 0, 0), (16777198, 0, 0), (16777199, 0, 0)] = (16777198, 0, 0)"
    by (simp add: mean3_def)
  have e: "centroid_dist [(16777197, 0, 0), (16777198, 0, 0), (16777199, 0, 0)] [0, 1, 2] 0 = 1"
      "centroid_dist [(16777197, 0, 0), (16777198, 0, 0), (16777199, 0, 0)] [0, 1, 2] 1 = 0"
      "centroid_dist [(16777197, 0, 0), (16777198, 0, 0), (16777199, 0, 0)] [0, 1, 2] 2 = 1"
    by (simp_all add: centroid_dist_def mean3_def sub3_def norm3_def)
  have s: "selected_indices numpy_stable
      [(16777197, 0, 0), (16777198, 0, 0), (16777199, 0, 0)] 100 = [2]"
    using rounding_distances
    by (simp add: selected_indices_def rounding_keys argsort_numpy_stable select_in_group_def
        unique_index_def argsort_stable_def Let_def upt_rec computed_dist_def
        first_index_def argmin_def)
  have r: "downsample_voxel_grid_nearest numpy_stable
     [(16777197, 0, 0), (16777198, 0, 0), (16777199, 0, 0)] [(1, 2, 3), (4, 5, 6), (7, 8, 9)] 100
     = Inr ([(16777199, 0, 0)], [(7, 8, 9)], [2])"
    by (simp add: downsample_voxel_grid_nearest_def s)
  from rounding_keys m c e rounding_mean rounding_distances r o show ?thesis by blast
qed

section \<open>The iteration budget of the calibration\<close>









section \<open>Targets that are not resolvable or not positive\<close>

lemma search_not_no_target:
  "search np points target tol n vmin vmax \<noteq> Inl ValueError_no_target"
  by (induction n arbitrary: vmin vmax) (auto simp: Let_def)

lemma find_voxel_size_not_no_target:
  "find_voxel_size_for_target np points target tol \<noteq> Inl ValueError_no_target"
  by (simp add: find_voxel_size_for_target_def Let_def search_not_no_target)

lemma downsample_not_no_target:
  "downsample_voxel_grid_nearest np points colors v \<noteq> Inl ValueError_no_target"
  by (simp add: downsample_voxel_grid_nearest_def Let_def)

lemma to_target_not_no_target:
  "downsample_to_target np points colors (Some t) tsb \<noteq> Inl ValueError_no_target"
  unfolding to_target_given_count
  using find_voxel_size_not_no_target [of np points t "5 / 100"]
    downsample_not_no_target [of np points colors]
  by (auto split: sum.splits)

lemma find_voxel_size_nonpositive:
  "t \<le> 0 \<Longrightarrow> find_voxel_size_for_target np points t tol =
     (if points = [] then Inl ValueError_zero_size
      else if t = 0 then Inl ZeroDivisionError else Inl TypeError)"
  by (simp add: find_voxel_size_for_target_def search_numeral Let_def)

text \<open>
  C4, as the code has it. \<^verbatim>\<open>downsample_to_target\<close> raises its own error exactly when
  no target is resolvable: \<^verbatim>\<open>target_count\<close> is absent and \<^verbatim>\<open>target_size_bytes\<close> is
  absent or zero. A \<^verbatim>\<open>target_count\<close> that is zero or negative is not rejected: the
  input is returned when the count is at least N (an empty set and target 0), and
  otherwise the call goes into the calibration, which is where it fails.
\<close>

theorem no_target_error_iff:
  "(downsample_to_target np points colors target_count target_size_bytes
      = Inl ValueError_no_target
    \<longleftrightarrow> target_count = None \<and> (target_size_bytes = None \<or> target_size_bytes = Some 0)) \<and>
   (t \<le> 0 \<longrightarrow>
      downsample_to_target np points colors (Some t) target_size_bytes =
        (if points = [] \<and> t = 0 then Inr (points, colors)
         else if points = [] then Inl ValueError_zero_size
         else if t = 0 then Inl ZeroDivisionError
         else Inl TypeError))"
proof (intro conjI impI)
  show "downsample_to_target np points colors target_count target_size_bytes
      = Inl ValueError_no_target
    \<longleftrightarrow> target_count = None \<and> (target_size_bytes = None \<or> target_size_bytes = Some 0)"
  proof (cases target_count)
    case (Some t)
    then show ?thesis using to_target_not_no_target [of np points colors t] by simp
  next
    case None
    show ?thesis
    proof (cases "target_size_bytes = None \<or> target_size_bytes = Some 0")
      case True
      then show ?thesis using None by (auto simp: downsample_to_target_def)
    next
      case False
      then obtain b where b: "target_size_bytes = Some b" "b \<noteq> 0" by auto
      have "downsample_to_target np points colors None (Some b) \<noteq> Inl ValueError_no_target"
        unfolding to_target_given_bytes [OF b(2)]
        using to_target_not_no_target [of np points colors _ "Some b"]
        by (cases "bytes_to_count b") (auto simp: bytes_to_count_def Let_def split: if_splits)
      then show ?thesis using None b by simp
    qed
  qed
next
  assume t: "t \<le> 0"
  show "downsample_to_target np points colors (Some t) target_size_bytes =
        (if points = [] \<and> t = 0 then Inr (points, colors)
         else if points = [] then Inl ValueError_zero_size
         else if t = 0 then Inl ZeroDivisionError
         else Inl TypeError)"
    unfolding to_target_given_count find_voxel_size_nonpositive [OF t]
    using t by (cases "points = []") auto
qed

theorem no_target_error_iff_witness:
  "(0 :: int) \<le> 0 \<and>
   downsample_to_target numpy_stable [(0, 0, 0)] [(1, 2, 3)] (Some 0) None = Inl ZeroDivisionError \<and>
   downsample_to_target numpy_stable [(0, 0, 0)] [(1, 2, 3)] None (Some 0) = Inl ValueError_no_target"
  using no_target_error_iff [of numpy_stable "[(0, 0, 0)]" "[(1, 2, 3)]" None "Some 0" 0]
    no_target_error_iff [of numpy_stable "[(0, 0, 0)]" "[(1, 2, 3)]" None None 0]
  by simp

text \<open>
  C4, as the claim states it, fails: with \<^verbatim>\<open>target_count = 0\<close> or \<open>-1\<close> and one point
  the error comes out of the calibration and is not the error for an invalid target, and
  with \<^verbatim>\<open>target_count = 0\<close> and an empty set nothing is raised.
\<close>

theorem nonpositive_target_not_rejected:
  "downsample_to_target numpy_stable [(0, 0, 0)] [(1, 2, 3)] (Some 0) None = Inl ZeroDivisionError \<and>
   downsample_to_target numpy_stable [(0, 0, 0)] [(1, 2, 3)] (Some (- 1)) None = Inl TypeError \<and>
   downsample_to_target numpy_stable [] [] (Some 0) None = Inr ([], [])"
  by (simp add: downsample_to_target_def find_voxel_size_for_target_def search_numeral Let_def)

section \<open>Degenerate bounding box\<close>

lemma funpow_fixed: "g x = x \<Longrightarrow> (g ^^ k) x = x"
  by (induction k) simp_all

lemma min64_replicate: "0 < n \<Longrightarrow> min64 (replicate n x) = x"
  by (simp add: min64_def funpow_fixed)

lemma max64_replicate: "0 < n \<Longrightarrow> max64 (replicate n x) = x"
  by (simp add: max64_def funpow_fixed)

lemma min_real_replicate: "0 < n \<Longrightarrow> min_real (replicate n x) = x"
  by (simp add: min_real_def funpow_fixed)

lemma max_real_replicate: "0 < n \<Longrightarrow> max_real (replicate n x) = x"
  by (simp add: max_real_def funpow_fixed)

lemma remdups_replicate_pos: "0 < n \<Longrightarrow> remdups (replicate n x) = [x]"
proof (induction n)
  case 0
  then show ?case by simp
next
  case (Suc n)
  then show ?case by (cases n) auto
qed

lemma voxel_keys_identical:
  assumes "0 < n"
  shows "voxel_keys np (replicate n p) v = replicate n 0"
proof -
  obtain a b d where c: "grid_index np v p = (a, b, d)" by (cases "grid_index np v p")
  have mn: "cells_min (replicate n (a, b, d)) = (a, b, d)"
    using assms by (simp add: cells_min_def min64_replicate)
  have mx: "cells_max (replicate n (0, 0, 0)) = (0, 0, 0)"
    using assms by (simp add: cells_max_def max64_replicate)
  show ?thesis
    by (simp add: voxel_keys_def Let_def c mn cell_sub_def mx)
qed

lemma occupied_keys_identical:
  "0 < n \<Longrightarrow> occupied_keys np (replicate n p) v = [0]"
  by (simp add: occupied_keys_def voxel_keys_identical remdups_replicate_pos)

lemma voxel_members_identical:
  assumes ok: "argsort_ok np" and n: "0 < n"
  shows "voxel_members np (replicate n p) v 0 = argsort np (replicate n 0)"
proof -
  have "\<forall>i \<in> set (argsort np (replicate n 0)). replicate n (0 :: int64) ! i = 0"
    using argsort_set [OF ok, of "replicate n 0"] by simp
  then show ?thesis
    by (simp add: voxel_members_def voxel_keys_identical [OF n] filter_id_conv)
qed

lemma argmin_replicate: "0 < m \<Longrightarrow> argmin (replicate m d) = 0"
  by (cases m) (simp_all add: argmin_def funpow_fixed first_index_def)

lemma group_choice_identical:
  assumes "members \<noteq> []" "\<forall>i \<in> set members. i < n"
  shows "group_choice np (replicate n p) members = hd members"
proof -
  let ?F = "\<lambda>q. linalg_norm np
      (subtract np q (mean_axis0 np (map (\<lambda>i. replicate n p ! i) members)))"
  have "map (computed_dist np (replicate n p) members) members = map (\<lambda>i. ?F p) members"
    using assms(2) by (intro map_cong) (simp_all add: computed_dist_def)
  also have "\<dots> = replicate (length members) (?F p)" by (rule map_replicate_const)
  finally have "group_choice np (replicate n p) members
      = members ! argmin (replicate (length members) (?F p))"
    by (simp add: group_choice_def)
  then show ?thesis using assms(1) by (simp add: argmin_replicate hd_conv_nth)
qed

lemma argsort_nonempty:
  assumes ok: "argsort_ok np" and "ks \<noteq> []"
  shows "argsort np ks \<noteq> []" "hd (argsort np ks) < length ks"
proof -
  have s: "set (argsort np ks) = {..<length ks}" by (rule argsort_set [OF ok])
  have "0 < length ks" using assms(2) by simp
  then have z: "0 \<in> set (argsort np ks)" unfolding s by simp
  show ne: "argsort np ks \<noteq> []"
  proof
    assume "argsort np ks = []"
    then have "set (argsort np ks) = {}" by simp
    with z show False by simp
  qed
  have "hd (argsort np ks) \<in> set (argsort np ks)" by (rule hd_in_set [OF ne])
  then show "hd (argsort np ks) < length ks" unfolding s by simp
qed

lemma selected_indices_identical:
  assumes ok: "argsort_ok np" and n: "0 < n"
  shows "selected_indices np (replicate n p) v = [hd (argsort np (replicate n 0))]"
proof -
  let ?si = "argsort np (replicate n (0 :: int64))"
  have ne: "replicate n (0 :: int64) \<noteq> []" using n by simp
  have si: "?si \<noteq> []" by (rule argsort_nonempty(1) [OF ok ne])
  have "set ?si = {..<length (replicate n (0 :: int64))}" by (rule argsort_set [OF ok])
  then have rng: "\<forall>i \<in> set ?si. i < n" by simp
  have gc: "group_choice np (replicate n p) ?si = hd ?si"
    by (rule group_choice_identical [OF si rng])
  have "selected_indices np (replicate n p) v =
        map (\<lambda>u. group_choice np (replicate n p) (voxel_members np (replicate n p) v u)) [0]"
    unfolding selected_indices_members [OF ok] occupied_keys_identical [OF n] ..
  also have "\<dots> = [group_choice np (replicate n p) ?si]"
    by (simp only: list.map voxel_members_identical [OF ok n])
  finally show ?thesis unfolding gc .
qed

lemma downsample_identical:
  assumes ok: "argsort_ok np" and n: "0 < n" and len: "length colors = n"
  shows "downsample_voxel_grid_nearest np (replicate n p) colors v =
     Inr ([p], [colors ! hd (argsort np (replicate n 0))], [hd (argsort np (replicate n 0))])"
proof -
  let ?i = "hd (argsort np (replicate n (0 :: int64)))"
  have ne: "replicate n (0 :: int64) \<noteq> []" using n by simp
  have i: "?i < n"
    using argsort_nonempty(2) [OF ok ne] by simp
  have sel: "selected_indices np (replicate n p) v = [?i]"
    by (rule selected_indices_identical [OF ok n])
  have pne: "replicate n p \<noteq> []" using n by simp
  have pi: "replicate n p ! ?i = p" using i by simp
  show ?thesis
    unfolding downsample_voxel_grid_nearest_def Let_def sel
    using pne i len pi by simp
qed

lemma search_zero_bounds:
  assumes "target \<noteq> 0" "0 < k"
  shows "search np points target tol k 0 0 = Inr 0"
  using assms(2)
proof (induction k)
  case 0
  then show ?case by simp
next
  case (Suc k)
  then show ?case using assms(1) by (cases "k = 0") (simp_all add: Let_def)
qed

lemma find_voxel_size_identical:
  assumes "0 < n" "0 < target"
  shows "find_voxel_size_for_target np (replicate n p) target tol = Inr 0"
proof -
  have "norm3 (sub3 (points_max (replicate n p)) (points_min (replicate n p))) = 0"
    using assms(1)
    by (cases p) (simp add: points_max_def points_min_def max_real_replicate min_real_replicate
        sub3_def norm3_def)
  then show ?thesis
    using assms search_zero_bounds [of target 50 np "replicate n p" tol]
    by (simp add: find_voxel_size_for_target_def Let_def)
qed

text \<open>
  C5, as the code has it. When all N points are identical and the target is positive and
  below N, the calibration returns the voxel size 0: every midpoint is 0 and the points
  are divided by it. The division is a NumPy floating-point division, which gives
  non-finite values and raises nothing. Whatever integer the platform converts those to,
  all points get the same grid index, so the set is one voxel, and one point of the input
  is returned with the color of one of the input's indices.
\<close>

theorem degenerate_bbox_single_point:
  assumes ok: "argsort_ok np" and len: "length colors = n" and t: "0 < t" "t < int n"
  shows "find_voxel_size_for_target np (replicate n p) t (5 / 100) = Inr 0 \<and>
         (\<exists>i < n. downsample_to_target np (replicate n p) colors (Some t) target_size_bytes
                    = Inr ([p], [colors ! i]))"
proof -
  have n: "0 < n" using t by simp
  have v: "find_voxel_size_for_target np (replicate n p) t (5 / 100) = Inr 0"
    by (rule find_voxel_size_identical [OF n t(1)])
  have ne: "replicate n (0 :: int64) \<noteq> []" using n by simp
  have i: "hd (argsort np (replicate n 0)) < n"
    using argsort_nonempty(2) [OF ok ne] by simp
  have "downsample_to_target np (replicate n p) colors (Some t) target_size_bytes
      = Inr ([p], [colors ! hd (argsort np (replicate n 0))])"
    unfolding to_target_given_count v using t(2)
    by (simp add: downsample_identical [OF ok n len])
  with v i show ?thesis by blast
qed

lemma example_keys_zero_size: "voxel_keys numpy_stable [(1, 1, 1), (1, 1, 1)] 0 = [0, 0]"
  by (simp add: voxel_keys_def grid_index_def floor_div_int64_def cells_min_def cells_max_def
      cell_sub_def min64_def max64_def numpy_stable_def cast_x86_def Let_def)

lemma example_selected_zero_size:
  "selected_indices numpy_stable [(1, 1, 1), (1, 1, 1)] 0 = [0]"
  by (simp add: selected_indices_def example_keys_zero_size argsort_numpy_stable
      select_in_group_def unique_index_def first_index_def argmin_def float_defs
      argsort_stable_def Let_def upt_rec)

theorem degenerate_bbox_single_point_witness:
  "argsort_ok numpy_stable \<and> length [(1, 2, 3), (4, 5, 6) :: color] = 2 \<and> (0 :: int) < 1 \<and>
   (1 :: int) < int 2 \<and>
   find_voxel_size_for_target numpy_stable (replicate 2 (1, 1, 1)) 1 (5 / 100) = Inr 0 \<and>
   downsample_to_target numpy_stable [(1, 1, 1), (1, 1, 1)] [(1, 2, 3), (4, 5, 6)] (Some 1) None
     = Inr ([(1, 1, 1)], [(1, 2, 3)])"
proof -
  have h1: "argsort_ok numpy_stable" by (rule argsort_ok_stable)
  have h2: "length [(1, 2, 3), (4, 5, 6) :: color] = 2" by simp
  have h3: "(0 :: int) < 1" "(1 :: int) < int 2" by simp_all
  note T = degenerate_bbox_single_point [OF h1 h2 h3, of "(1, 1, 1)" None]
  have r: "replicate 2 (1, 1, 1) = [(1, 1, 1), (1, 1, 1) :: point]"
    by (simp add: numeral_2_eq_2)
  have d: "downsample_voxel_grid_nearest numpy_stable [(1, 1, 1), (1, 1, 1)]
      [(1, 2, 3), (4, 5, 6)] 0 = Inr ([(1, 1, 1)], [(1, 2, 3)], [0])"
    by (simp add: downsample_voxel_grid_nearest_def example_selected_zero_size)
  from T have v: "find_voxel_size_for_target numpy_stable (replicate 2 (1, 1, 1)) 1 (5 / 100) = Inr 0"
    by blast
  then have "downsample_to_target numpy_stable [(1, 1, 1), (1, 1, 1)] [(1, 2, 3), (4, 5, 6)]
      (Some 1) None = Inr ([(1, 1, 1)], [(1, 2, 3)])"
    using d unfolding r by (simp add: to_target_given_count)
  with h1 h2 h3 v show ?thesis by blast
qed

text \<open>
  C5, as the claim states it, fails in its first part: the calibration does divide by
  zero. For two identical points and target 1 the voxel size it returns, the midpoint it
  has divided the points by, is 0, and the grid index of a point at voxel size 0 is what
  the platform's conversion leaves.
\<close>

theorem degenerate_bbox_divides_by_zero:
  "find_voxel_size_for_target numpy_stable [(1, 1, 1), (1, 1, 1)] 1 (5 / 100) = Inr 0 \<and>
   grid_index numpy_stable 0 (1, 1, 1) =
     (cast_undefined numpy_stable 1 0, cast_undefined numpy_stable 1 0,
      cast_undefined numpy_stable 1 0)"
proof -
  have "find_voxel_size_for_target numpy_stable (replicate 2 (1, 1, 1)) 1 (5 / 100) = Inr 0"
    by (rule find_voxel_size_identical) simp_all
  moreover have "replicate 2 (1, 1, 1) = [(1, 1, 1), (1, 1, 1) :: point]"
    by (simp add: numeral_2_eq_2)
  ultimately show ?thesis by (simp add: grid_index_def floor_div_int64_def)
qed

section \<open>Overflow of the linearised voxel key\<close>

subsection \<open>Without overflow the key is injective\<close>

lemma fold_min64:
  "fold (\<lambda>a b. if sint a < sint b then a else b) xs (s :: int64) \<in> insert s (set xs) \<and>
   (\<forall>x \<in> insert s (set xs). sint (fold (\<lambda>a b. if sint a < sint b then a else b) xs s) \<le> sint x)"
proof (induction xs arbitrary: s)
  case Nil
  then show ?case by simp
next
  case (Cons a xs)
  let ?s = "if sint a < sint s then a else s"
  from Cons [of ?s] show ?case by (auto split: if_splits) 
qed

lemma fold_max64:
  "fold (\<lambda>a b. if sint b < sint a then a else b) xs (s :: int64) \<in> insert s (set xs) \<and>
   (\<forall>x \<in> insert s (set xs). sint x \<le> sint (fold (\<lambda>a b. if sint b < sint a then a else b) xs s))"
proof (induction xs arbitrary: s)
  case Nil
  then show ?case by simp
next
  case (Cons a xs)
  let ?s = "if sint s < sint a then a else s"
  from Cons [of ?s] show ?case by (auto split: if_splits)
qed

lemma min64_least:
  assumes "xs \<noteq> []"
  shows "min64 xs \<in> set xs" "x \<in> set xs \<Longrightarrow> sint (min64 xs) \<le> sint x"
  using assms fold_min64 [of "tl xs" "hd xs"]
  by (cases xs; auto simp: min64_def)+

lemma max64_greatest:
  assumes "xs \<noteq> []"
  shows "max64 xs \<in> set xs" "x \<in> set xs \<Longrightarrow> sint x \<le> sint (max64 xs)"
  using assms fold_max64 [of "tl xs" "hd xs"]
  by (cases xs; auto simp: max64_def)+

lemma uint_diff_in_range:
  fixes x m :: int64
  assumes "0 \<le> sint x - sint m" "sint x - sint m < 2 ^ 64"
  shows "uint (x - m) = sint x - sint m"
proof -
  have "x - m = word_of_int (sint x - sint m)" by simp
  then have "uint (x - m) = take_bit 64 (sint x - sint m)"
    by (simp only: uint_word_of_int_eq) simp
  then show ?thesis using assms by (simp add: take_bit_int_eq_self)
qed

lemma sint_of_int_range:
  "- (2 ^ 63) \<le> k \<Longrightarrow> k < 2 ^ 63 \<Longrightarrow> sint (word_of_int k :: int64) = k"
  by (simp add: sint_sbintrunc' signed_take_bit_int_eq_self)

lemma axis_cells_pos: "col \<noteq> [] \<Longrightarrow> 1 \<le> axis_cells col"
  using max64_greatest(2) [of col "min64 col"] min64_least(1) [of col]
  by (simp add: axis_cells_def)

lemma shifted_column:
  assumes ne: "col \<noteq> []" and n: "axis_cells col \<le> 2 ^ 63"
  defines "m \<equiv> min64 col"
  shows "\<forall>x \<in> set col. x - m = word_of_int (sint x - sint m) \<and>
            0 \<le> sint x - sint m \<and> sint x - sint m < axis_cells col"
    and "max64 (map (\<lambda>x. x - m) col) + 1 = word_of_int (axis_cells col)"
proof -
  have rng: "0 \<le> sint x - sint m \<and> sint x - sint m < axis_cells col" if "x \<in> set col" for x
    using that min64_least(2) [OF ne that] max64_greatest(2) [OF ne that]
    by (simp add: m_def axis_cells_def)
  show first: "\<forall>x \<in> set col. x - m = word_of_int (sint x - sint m) \<and>
            0 \<le> sint x - sint m \<and> sint x - sint m < axis_cells col"
    using rng by simp
  have s: "sint (x - m) = sint x - sint m" if "x \<in> set col" for x
  proof -
    have "x - m = word_of_int (sint x - sint m)" by simp
    moreover have "sint (word_of_int (sint x - sint m) :: int64) = sint x - sint m"
      using rng [OF that] n by (intro sint_of_int_range) simp_all
    ultimately show ?thesis by simp
  qed
  let ?ys = "map (\<lambda>x. x - m) col"
  have yne: "?ys \<noteq> []" using ne by simp
  have "max64 ?ys \<in> set ?ys" by (rule max64_greatest(1) [OF yne])
  then obtain x where x: "x \<in> set col" "max64 ?ys = x - m" by auto
  have up: "sint (max64 ?ys) \<le> axis_cells col - 1"
    using rng [OF x(1)] s [OF x(1)] x(2) by simp
  have mx: "max64 col \<in> set col" by (rule max64_greatest(1) [OF ne])
  then have "max64 col - m \<in> set ?ys" by simp
  then have "sint (max64 col - m) \<le> sint (max64 ?ys)" by (rule max64_greatest(2) [OF yne])
  then have lo: "axis_cells col - 1 \<le> sint (max64 ?ys)"
    using s [OF mx] by (simp add: axis_cells_def m_def)
  have e: "sint (max64 ?ys) = axis_cells col - 1" using up lo by simp
  have "word_of_int (sint (max64 ?ys)) = max64 ?ys" by simp
  then have "max64 ?ys = word_of_int (axis_cells col - 1)"
    unfolding e by simp
  then show "max64 ?ys + 1 = word_of_int (axis_cells col)" by simp
qed

lemma mixed_radix_inj:
  fixes X Y Z X' Y' Z' ny nz :: int
  assumes "0 \<le> Y" "Y < ny" "0 \<le> Z" "Z < nz" "0 \<le> Y'" "Y' < ny" "0 \<le> Z'" "Z' < nz"
    and eq: "X * (ny * nz) + Y * nz + Z = X' * (ny * nz) + Y' * nz + Z'"
  shows "X = X' \<and> Y = Y' \<and> Z = Z'"
proof -
  have nz: "0 < nz" and ny: "0 < ny" using assms by linarith+
  have e: "(X * ny + Y) * nz + Z = (X' * ny + Y') * nz + Z'"
    using eq by (simp add: algebra_simps)
  have "((X * ny + Y) * nz + Z) div nz = X * ny + Y"
    using assms nz by simp
  moreover have "((X' * ny + Y') * nz + Z') div nz = X' * ny + Y'"
    using assms nz by simp
  ultimately have e2: "X * ny + Y = X' * ny + Y'" using e by simp
  then have z: "Z = Z'" using e by simp
  have "(X * ny + Y) div ny = X" using assms ny by simp
  moreover have "(X' * ny + Y') div ny = X'" using assms ny by simp
  ultimately have x: "X = X'" using e2 by simp
  then have "Y = Y'" using e2 by simp
  with x z show ?thesis by simp
qed

lemma voxel_keys_nth:
  fixes np :: "'a numpy_scheme" and points :: "point list" and v :: real
  assumes i: "i < length points"
  defines "cs \<equiv> map (grid_index np v) points"
  defines "mx \<equiv> min64 (map fst cs)" and "my \<equiv> min64 (map (fst \<circ> snd) cs)"
    and "mz \<equiv> min64 (map (snd \<circ> snd) cs)"
  shows "voxel_keys np points v ! i =
     (case grid_index np v (points ! i) of (x, y, z) \<Rightarrow>
        (x - mx) * ((max64 (map (\<lambda>y. y - my) (map (fst \<circ> snd) cs)) + 1)
                     * (max64 (map (\<lambda>z. z - mz) (map (snd \<circ> snd) cs)) + 1))
        + (y - my) * (max64 (map (\<lambda>z. z - mz) (map (snd \<circ> snd) cs)) + 1)
        + (z - mz))"
proof -
  have f2: "map (fst \<circ> snd) (map (\<lambda>c. cell_sub c (mx, my, mz)) cs)
              = map (\<lambda>y. y - my) (map (fst \<circ> snd) cs)"
    by (simp add: cell_sub_def comp_def case_prod_unfold)
  have f3: "map (snd \<circ> snd) (map (\<lambda>c. cell_sub c (mx, my, mz)) cs)
              = map (\<lambda>z. z - mz) (map (snd \<circ> snd) cs)"
    by (simp add: cell_sub_def comp_def case_prod_unfold)
  have off: "cells_min cs = (mx, my, mz)"
    by (simp add: cells_min_def mx_def my_def mz_def)
  obtain x y z where c: "grid_index np v (points ! i) = (x, y, z)"
    by (cases "grid_index np v (points ! i)")
  have ci: "cs ! i = (x, y, z)" using i c by (simp add: cs_def)
  have len: "i < length cs" using i by (simp add: cs_def)
  show ?thesis
    unfolding voxel_keys_def Let_def cs_def [symmetric] off cells_max_def f2 f3
    using len by (simp add: ci c cell_sub_def)
qed

text \<open>
  When the key range fits in \<^verbatim>\<open>int64\<close>, two points receive the same key if and only if
  they fall in the same grid cell.
\<close>

lemma keys_injective_without_overflow:
  assumes fits: "key_fits np points v" and i: "i < length points" and j: "j < length points"
  shows "voxel_keys np points v ! i = voxel_keys np points v ! j \<longleftrightarrow>
         grid_index np v (points ! i) = grid_index np v (points ! j)"
proof
  assume "grid_index np v (points ! i) = grid_index np v (points ! j)"
  then show "voxel_keys np points v ! i = voxel_keys np points v ! j"
    by (simp add: voxel_keys_nth [OF i] voxel_keys_nth [OF j])
next
  assume keq: "voxel_keys np points v ! i = voxel_keys np points v ! j"
  define cs where "cs = map (grid_index np v) points"
  define xs ys zs where "xs = map fst cs" and "ys = map (fst \<circ> snd) cs"
    and "zs = map (snd \<circ> snd) cs"
  define nx ny nz where "nx = axis_cells xs" and "ny = axis_cells ys" and "nz = axis_cells zs"
  have ne: "xs \<noteq> []" "ys \<noteq> []" "zs \<noteq> []"
    using i by (auto simp: xs_def ys_def zs_def cs_def)
  have pos: "1 \<le> nx" "1 \<le> ny" "1 \<le> nz"
    using ne by (simp_all add: nx_def ny_def nz_def axis_cells_pos)
  have prod: "nx * ny * nz < 2 ^ 63"
    using fits by (simp add: key_fits_def Let_def nx_def ny_def nz_def xs_def ys_def zs_def cs_def)
  have one: "1 \<le> a * b" if "1 \<le> a" "1 \<le> b" for a b :: int
    using mult_mono [of 1 a 1 b] that by simp
  have yz: "0 < ny * nz" using one [OF pos(2,3)] by simp
  have "nx * 1 \<le> nx * (ny * nz)" using pos one [OF pos(2,3)] by (intro mult_left_mono) simp_all
  then have bx: "nx \<le> 2 ^ 63" using prod by (simp add: mult.assoc)
  have "ny * 1 \<le> ny * (nx * nz)" using pos one [OF pos(1,3)] by (intro mult_left_mono) simp_all
  then have by': "ny \<le> 2 ^ 63" using prod by (simp add: mult.assoc mult.left_commute)
  have "nz * 1 \<le> nz * (nx * ny)" using pos one [OF pos(1,2)] by (intro mult_left_mono) simp_all
  then have bz: "nz \<le> 2 ^ 63" using prod by (simp add: mult.commute)
  note sx = shifted_column [OF ne(1) bx [unfolded nx_def] ]
  note sy = shifted_column [OF ne(2) by' [unfolded ny_def] ]
  note sz = shifted_column [OF ne(3) bz [unfolded nz_def] ]
  have key: "\<exists>X Y Z. voxel_keys np points v ! k = word_of_int (X * (ny * nz) + Y * nz + Z) \<and>
       0 \<le> X \<and> X < nx \<and> 0 \<le> Y \<and> Y < ny \<and> 0 \<le> Z \<and> Z < nz \<and>
       grid_index np v (points ! k) =
         (word_of_int X + min64 xs, word_of_int Y + min64 ys, word_of_int Z + min64 zs)"
    if k: "k < length points" for k
  proof -
    obtain x y z where c: "grid_index np v (points ! k) = (x, y, z)"
      by (cases "grid_index np v (points ! k)")
    have "cs ! k = (x, y, z)" "k < length cs" using k c by (simp_all add: cs_def)
    then have "(x, y, z) \<in> set cs" by (metis nth_mem)
    then have mem: "x \<in> set xs" "y \<in> set ys" "z \<in> set zs"
      by (force simp: xs_def ys_def zs_def)+
    define X Y Z where "X = sint x - sint (min64 xs)" and "Y = sint y - sint (min64 ys)"
      and "Z = sint z - sint (min64 zs)"
    have X: "x - min64 xs = word_of_int X" "0 \<le> X" "X < nx"
      using sx(1) mem(1) by (simp_all add: X_def nx_def)
    have Y: "y - min64 ys = word_of_int Y" "0 \<le> Y" "Y < ny"
      using sy(1) mem(2) by (simp_all add: Y_def ny_def)
    have Z: "z - min64 zs = word_of_int Z" "0 \<le> Z" "Z < nz"
      using sz(1) mem(3) by (simp_all add: Z_def nz_def)
    have "voxel_keys np points v ! k =
        word_of_int X * (word_of_int ny * word_of_int nz) + word_of_int Y * word_of_int nz
          + word_of_int Z"
      unfolding voxel_keys_nth [OF k] c cs_def [symmetric] xs_def [symmetric]
        ys_def [symmetric] zs_def [symmetric] prod.case
      using sy(2) sz(2) X(1) Y(1) Z(1) by (simp only: ny_def nz_def)
    then have "voxel_keys np points v ! k = word_of_int (X * (ny * nz) + Y * nz + Z)"
      by simp
    moreover have "x = word_of_int X + min64 xs" "y = word_of_int Y + min64 ys"
        "z = word_of_int Z + min64 zs"
      using X(1) Y(1) Z(1) by (simp_all add: algebra_simps)
    ultimately show ?thesis using X Y Z c by blast
  qed
  from key [OF i] obtain X Y Z where
    ki: "voxel_keys np points v ! i = word_of_int (X * (ny * nz) + Y * nz + Z)"
    and r: "0 \<le> X" "X < nx" "0 \<le> Y" "Y < ny" "0 \<le> Z" "Z < nz"
    and ci: "grid_index np v (points ! i) =
         (word_of_int X + min64 xs, word_of_int Y + min64 ys, word_of_int Z + min64 zs)"
    by blast
  from key [OF j] obtain X' Y' Z' where
    kj: "voxel_keys np points v ! j = word_of_int (X' * (ny * nz) + Y' * nz + Z')"
    and r': "0 \<le> X'" "X' < nx" "0 \<le> Y'" "Y' < ny" "0 \<le> Z'" "Z' < nz"
    and cj: "grid_index np v (points ! j) =
         (word_of_int X' + min64 xs, word_of_int Y' + min64 ys, word_of_int Z' + min64 zs)"
    by blast
  have bound: "0 \<le> A * (ny * nz) + B * nz + C \<and> A * (ny * nz) + B * nz + C < 2 ^ 63"
    if "0 \<le> A" "A < nx" "0 \<le> B" "B < ny" "0 \<le> C" "C < nz" for A B C
  proof -
    have "B * nz \<le> (ny - 1) * nz" using that pos by (intro mult_right_mono) simp_all
    then have l: "B * nz + C < ny * nz" using that by (simp add: algebra_simps)
    have "A * (ny * nz) \<le> (nx - 1) * (ny * nz)" using that yz by (intro mult_right_mono) simp_all
    then have "A * (ny * nz) + B * nz + C < nx * (ny * nz)" using l by (simp add: algebra_simps)
    then have "A * (ny * nz) + B * nz + C < 2 ^ 63" using prod by (simp add: mult.assoc)
    moreover have "0 \<le> A * (ny * nz) + B * nz + C" using that pos by simp
    ultimately show ?thesis by simp
  qed
  have "sint (voxel_keys np points v ! i) = X * (ny * nz) + Y * nz + Z"
    unfolding ki using bound [OF r] by (intro sint_of_int_range) simp_all
  moreover have "sint (voxel_keys np points v ! j) = X' * (ny * nz) + Y' * nz + Z'"
    unfolding kj using bound [OF r'] by (intro sint_of_int_range) simp_all
  ultimately have "X * (ny * nz) + Y * nz + Z = X' * (ny * nz) + Y' * nz + Z'"
    using keq by simp
  then have "X = X' \<and> Y = Y' \<and> Z = Z'"
    by (rule mixed_radix_inj [OF r(3,4,5,6) r'(3,4,5,6)])
  then show "grid_index np v (points ! i) = grid_index np v (points ! j)"
    using ci cj by simp
qed

lemma selected_key:
  assumes ok: "argsort_ok np" and u: "u \<in> set (occupied_keys np points v)"
  shows "voxel_keys np points v ! group_choice np points (voxel_members np points v u) = u"
proof -
  have "group_choice np points (voxel_members np points v u) \<in> set (voxel_members np points v u)"
    by (rule group_choice_mem [OF voxel_members_nonempty [OF ok u] ])
  then show ?thesis by (simp add: set_voxel_members [OF ok])
qed

lemma selected_distinct:
  assumes ok: "argsort_ok np"
  shows "distinct (selected_indices np points v)"
proof -
  have "inj_on (\<lambda>u. group_choice np points (voxel_members np points v u))
          (set (occupied_keys np points v))"
  proof (rule inj_onI)
    fix a b
    assume a: "a \<in> set (occupied_keys np points v)" and b: "b \<in> set (occupied_keys np points v)"
      and eq: "group_choice np points (voxel_members np points v a)
                 = group_choice np points (voxel_members np points v b)"
    have "a = voxel_keys np points v ! group_choice np points (voxel_members np points v a)"
      by (simp add: selected_key [OF ok a])
    also have "\<dots> = b" unfolding eq by (rule selected_key [OF ok b])
    finally show "a = b" .
  qed
  moreover have "distinct (occupied_keys np points v)" by (simp add: occupied_keys_def)
  ultimately show ?thesis
    by (simp add: selected_indices_members [OF ok] distinct_map)
qed

lemma selected_count:
  assumes ok: "argsort_ok np"
  shows "length (selected_indices np points v) = card (set (voxel_keys np points v))"
    and "length (selected_indices np points v) \<le> length points"
proof -
  show c: "length (selected_indices np points v) = card (set (voxel_keys np points v))"
    by (simp add: selected_indices_members [OF ok] occupied_keys_def length_remdups_card_conv)
  have "card (set (voxel_keys np points v)) \<le> length (voxel_keys np points v)"
    by (rule card_length)
  then show "length (selected_indices np points v) \<le> length points"
    unfolding c by (simp add: length_voxel_keys)
qed

lemma card_image_same_kernel:
  assumes "finite A" "\<And>i j. i \<in> A \<Longrightarrow> j \<in> A \<Longrightarrow> f i = f j \<longleftrightarrow> g i = g j"
  shows "card (f ` A) = card (g ` A)"
proof -
  define h where "h y = g (SOME i. i \<in> A \<and> f i = y)" for y
  have hf: "h (f i) = g i" if "i \<in> A" for i
  proof -
    have "(SOME k. k \<in> A \<and> f k = f i) \<in> A \<and> f (SOME k. k \<in> A \<and> f k = f i) = f i"
      by (rule someI [of "\<lambda>k. k \<in> A \<and> f k = f i" i]) (simp add: that)
    then show ?thesis unfolding h_def using assms(2) that by blast
  qed
  have img: "g ` A = h ` (f ` A)" using hf by (force simp: image_iff)
  have "inj_on h (f ` A)"
  proof (rule inj_onI)
    fix a b assume "a \<in> f ` A" "b \<in> f ` A" "h a = h b"
    then obtain i j where "i \<in> A" "j \<in> A" "a = f i" "b = f j" "g i = g j"
      using hf by auto
    then show "a = b" using assms(2) by simp
  qed
  then show ?thesis unfolding img by (simp add: card_image)
qed

lemma set_map_nth_image: "set (map f xs) = (\<lambda>i. f (xs ! i)) ` {..<length xs}"
proof -
  have "set xs = (\<lambda>i. xs ! i) ` {..<length xs}"
    by (simp add: set_conv_nth image_def lessThan_def Bex_def conj_commute)
  then have "f ` set xs = f ` ((\<lambda>i. xs ! i) ` {..<length xs})" by simp
  then show ?thesis by (simp only: set_map image_image)
qed

text \<open>
  The indices returned are pairwise distinct and at most N for every input; when the key
  range fits there is exactly one for every occupied grid cell.
\<close>

lemma one_point_per_cell_without_overflow:
  assumes ok: "argsort_ok np" and fits: "key_fits np points v"
  shows "distinct (selected_indices np points v) \<and>
         length (selected_indices np points v) = occupied np points v \<and>
         length (selected_indices np points v) \<le> length points"
proof -
  let ?A = "{..<length points}"
  have "card ((\<lambda>i. voxel_keys np points v ! i) ` ?A)
        = card ((\<lambda>i. grid_index np v (points ! i)) ` ?A)"
    by (rule card_image_same_kernel)
      (simp_all add: keys_injective_without_overflow [OF fits])
  moreover have "(\<lambda>i. voxel_keys np points v ! i) ` ?A = set (voxel_keys np points v)"
    using set_map_nth_image [of "\<lambda>k. k" "voxel_keys np points v"]
    by (simp add: length_voxel_keys)
  moreover have "(\<lambda>i. grid_index np v (points ! i)) ` ?A = set (map (grid_index np v) points)"
    by (rule set_map_nth_image [symmetric])
  ultimately have "card (set (voxel_keys np points v)) = occupied np points v"
    by (simp add: occupied_def length_remdups_card_conv)
  then show ?thesis
    using selected_distinct [OF ok, of points v] selected_count [OF ok, of points v] by simp
qed

subsection \<open>With overflow two cells share a key\<close>

lemma overflow_keys:
  "voxel_keys numpy_stable [(0, 0, 0), (4065216, 4194304, 4327488)] 1 = [0, 0]"
  by (simp add: voxel_keys_def grid_index_def floor_div_int64_def cells_min_def cells_max_def
      cell_sub_def min64_def max64_def Let_def)

lemma overflow_selected:
  "selected_indices numpy_stable [(0, 0, 0), (4065216, 4194304, 4327488)] 1 = [0]"
  by (simp add: selected_indices_def overflow_keys argsort_numpy_stable
      select_in_group_def unique_index_def first_index_def argmin_def float_defs
      argsort_stable_def Let_def upt_rec)

text \<open>
  C10. The row-major key is computed in \<^verbatim>\<open>int64\<close> and wraps. The two points below lie
  in different grid cells at voxel size 1; the index ranges are
  \<open>4065217 \<times> 4194305 \<times> 4327489 = 2\<^sup>6\<^sup>6 + 1\<close> cells, the key of the second point is
  \<open>2\<^sup>6\<^sup>6\<close>, which wraps to 0, the key of the first. The downsampler puts both in one
  group and returns one point for two occupied voxels.
\<close>

theorem voxel_key_overflow_merges_cells:
  "grid_index numpy_stable 1 (0, 0, 0) = (0, 0, 0) \<and>
   grid_index numpy_stable 1 (4065216, 4194304, 4327488) = (4065216, 4194304, 4327488) \<and>
   (4065216 :: int64) * (4194305 * 4327489) + 4194304 * 4327489 + 4327488 = 0 \<and>
   voxel_keys numpy_stable [(0, 0, 0), (4065216, 4194304, 4327488)] 1 = [0, 0] \<and>
   occupied numpy_stable [(0, 0, 0), (4065216, 4194304, 4327488)] 1 = 2 \<and>
   downsample_voxel_grid_nearest numpy_stable
     [(0, 0, 0), (4065216, 4194304, 4327488)] [(1, 2, 3), (4, 5, 6)] 1
     = Inr ([(0, 0, 0)], [(1, 2, 3)], [0])"
proof -
  have g: "grid_index numpy_stable 1 (0, 0, 0) = (0, 0, 0)"
      "grid_index numpy_stable 1 (4065216, 4194304, 4327488) = (4065216, 4194304, 4327488)"
    by (simp_all add: grid_index_def floor_div_int64_def)
  have w: "(4065216 :: int64) * (4194305 * 4327489) + 4194304 * 4327489 + 4327488 = 0"
    by simp
  have o: "occupied numpy_stable [(0, 0, 0), (4065216, 4194304, 4327488)] 1 = 2"
    by (simp add: occupied_def g)
  have d: "downsample_voxel_grid_nearest numpy_stable
     [(0, 0, 0), (4065216, 4194304, 4327488)] [(1, 2, 3), (4, 5, 6)] 1
     = Inr ([(0, 0, 0)], [(1, 2, 3)], [0])"
    by (simp add: downsample_voxel_grid_nearest_def overflow_selected)
  from g w o d overflow_keys show ?thesis by blast
qed

end
